theory Spec2Isabelle
  imports Main "HOL-Library.List_Lexorder" "HOL-Library.Char_ord" "HOL-Library.FSet"
    "HOL-Library.Sublist" "HOL-Library.AList"
begin

section \<open>Python strings\<close>

text \<open>
  A Python \<open>str\<close> is modelled by the \<open>string\<close> of its UTF-8 bytes. Substring search,
  replacement, splitting, prefix tests and comparison agree with Python on that encoding.
  Where Python looks at characters (\<open>strip\<close>, \<open>lower\<close>, \<open>\d\<close>, \<open>\w\<close>, \<open>int\<close>) the bytes are
  first cut into code points. Whitespace is the list of code points that \<open>str.isspace\<close>
  accepts. Which code points beyond ASCII are alphanumeric, and which are decimal digits
  with which value, is a table of the Unicode database: it is a parameter.
\<close>

definition sentinel :: string where
  "sentinel = ''No info available''"

definition no_website :: string where
  "no_website = ''No website''"

text \<open>The three non-ASCII literals of \<open>main.py\<close>: U+00A0, U+202F and the dot operator U+22C5.\<close>

definition nbsp :: string where
  "nbsp = [CHR 0xC2, CHR 0xA0]"

definition nnbsp :: string where
  "nnbsp = [CHR 0xE2, CHR 0x80, CHR 0xAF]"

definition dot_operator :: string where
  "dot_operator = [CHR 0xE2, CHR 0x8B, CHR 0x85]"

text \<open>
  The number of bytes of the code point that a byte starts, and the code points of a
  string. A byte that can start nothing is a code point of its own.
\<close>

definition utf8_len :: "char \<Rightarrow> nat" where
  "utf8_len c =
     (let n = (of_char c :: nat) in
      if n < 192 then 1 else if n < 224 then 2 else if n < 240 then 3 else 4)"

function code_points :: "string \<Rightarrow> string list" where
  "code_points [] = []"
| "code_points (c # cs) = take (utf8_len c) (c # cs) # code_points (drop (utf8_len c) (c # cs))"
  by pat_completeness auto
termination
  by (relation "measure length") (auto simp: utf8_len_def Let_def)

text \<open>
  The whitespace of \<open>str.strip\<close> and \<open>str.isspace\<close>: U+0009 to U+000D, U+001C to U+0020,
  U+0085, U+00A0, U+1680, U+2000 to U+200A, U+2028, U+2029, U+202F, U+205F and U+3000.
\<close>

definition unicode_spaces :: "string list" where
  "unicode_spaces =
     map (\<lambda>c. [c]) [CHR 0x09, CHR 0x0A, CHR 0x0B, CHR 0x0C, CHR 0x0D, CHR 0x1C, CHR 0x1D,
       CHR 0x1E, CHR 0x1F, CHR 0x20]
     @ [[CHR 0xC2, CHR 0x85], [CHR 0xC2, CHR 0xA0], [CHR 0xE1, CHR 0x9A, CHR 0x80]]
     @ map (\<lambda>c. [CHR 0xE2, CHR 0x80, c]) [CHR 0x80, CHR 0x81, CHR 0x82, CHR 0x83, CHR 0x84,
       CHR 0x85, CHR 0x86, CHR 0x87, CHR 0x88, CHR 0x89, CHR 0x8A, CHR 0xA8, CHR 0xA9, CHR 0xAF]
     @ [[CHR 0xE2, CHR 0x81, CHR 0x9F], [CHR 0xE3, CHR 0x80, CHR 0x80]]"

definition is_space :: "string \<Rightarrow> bool" where
  "is_space cp = (cp \<in> set unicode_spaces)"

definition py_strip :: "string \<Rightarrow> string" where
  "py_strip s = concat (rev (dropWhile is_space (rev (dropWhile is_space (code_points s)))))"

definition is_digit :: "char \<Rightarrow> bool" where
  "is_digit c = (let n = (of_char c :: nat) in 48 \<le> n \<and> n \<le> 57)"

definition is_word :: "char \<Rightarrow> bool" where
  "is_word c = (let n = (of_char c :: nat) in
     (48 \<le> n \<and> n \<le> 57) \<or> (65 \<le> n \<and> n \<le> 90) \<or> (97 \<le> n \<and> n \<le> 122) \<or> n = 95)"

text \<open>
  \<open>str.lower\<close>. The source only looks for ASCII text in a lowered string and keeps none, so
  all that matters beyond ASCII is which code points lower to something with an ASCII letter
  in it: the Kelvin sign U+212A, to \<open>k\<close>, and U+0130, to \<open>i\<close> and U+0307. Other letters beyond
  ASCII are left as they are.
\<close>

definition lower_char :: "char \<Rightarrow> char" where
  "lower_char c = (let n = (of_char c :: nat) in if 65 \<le> n \<and> n \<le> 90 then char_of (n + 32) else c)"

definition lower_cp :: "string \<Rightarrow> string" where
  "lower_cp cp =
     (if cp = [CHR 0xE2, CHR 0x84, CHR 0xAA] then ''k''
      else if cp = [CHR 0xC4, CHR 0xB0] then [CHR ''i'', CHR 0xCC, CHR 0x87]
      else map lower_char cp)"

definition py_lower :: "string \<Rightarrow> string" where
  "py_lower s = concat (map lower_cp (code_points s))"

text \<open>\<open>sub in s\<close>\<close>

fun py_in :: "string \<Rightarrow> string \<Rightarrow> bool" where
  "py_in sub [] = (sub = [])"
| "py_in sub (c # cs) = (prefix sub (c # cs) \<or> py_in sub cs)"

text \<open>
  \<open>s.replace(old, new)\<close>, every occurrence from the left, none overlapping. The source
  only passes a non-empty \<open>old\<close>; with an empty one the model returns \<open>s\<close>.
\<close>

function py_replace :: "string \<Rightarrow> string \<Rightarrow> string \<Rightarrow> string" where
  "py_replace old new [] = []"
| "py_replace old new (c # cs) =
     (if old \<noteq> [] \<and> prefix old (c # cs)
      then new @ py_replace old new (drop (length old) (c # cs))
      else c # py_replace old new cs)"
  by pat_completeness auto
termination
  by (relation "measure (\<lambda>(old, new, s). length s)") auto

text \<open>\<open>s.split(sep)\<close> with a non-empty separator: the pieces, at least one.\<close>

function split_acc :: "string \<Rightarrow> string \<Rightarrow> string \<Rightarrow> string list" where
  "split_acc sep acc [] = [rev acc]"
| "split_acc sep acc (c # cs) =
     (if sep \<noteq> [] \<and> prefix sep (c # cs)
      then rev acc # split_acc sep [] (drop (length sep) (c # cs))
      else split_acc sep (c # acc) cs)"
  by pat_completeness auto
termination
  by (relation "measure (\<lambda>(sep, acc, s). length s)") auto

definition py_split :: "string \<Rightarrow> string \<Rightarrow> string list" where
  "py_split sep s = split_acc sep [] s"

text \<open>\<open>sep.join(xs)\<close>\<close>

fun py_join :: "string \<Rightarrow> string list \<Rightarrow> string" where
  "py_join sep [] = []"
| "py_join sep [x] = x"
| "py_join sep (x # y # ys) = x @ sep @ py_join sep (y # ys)"

text \<open>
  Iterating a \<open>set\<close> of strings: each element once, in an order the hash values decide.
  The hash is a parameter; sorting the distinct elements by it gives every possible order.
\<close>

definition set_iter :: "(string \<Rightarrow> nat) \<Rightarrow> string list \<Rightarrow> string list" where
  "set_iter h xs = sort_key h (remdups xs)"

text \<open>\<open>sorted(set(xs))\<close>: code-point order, which is byte order on UTF-8.\<close>

definition sorted_set :: "string list \<Rightarrow> string list" where
  "sorted_set xs = sort (remdups xs)"

text \<open>
  \<open>int(s)\<close> on a string. Every code point beyond ASCII is first replaced: whitespace by a
  space, a decimal digit by its ASCII digit; any other one makes the string invalid. What is
  left is read as: whitespace (tab to carriage return, and space), an optional sign, decimal
  digits with single underscores between them, whitespace. \<open>None\<close> is the \<open>ValueError\<close>.
  \<open>dec\<close> is the table of the decimal digits beyond ASCII. The limit that recent
  interpreters put on the number of digits is not modelled.
\<close>

definition int_ascii :: "(string \<Rightarrow> nat option) \<Rightarrow> string \<Rightarrow> char option" where
  "int_ascii dec cp =
     (case cp of
        [c] \<Rightarrow> if (of_char c :: nat) < 127 then Some c else None
      | _ \<Rightarrow>
          if is_space cp then Some (CHR '' '')
          else (case dec cp of
                  Some d \<Rightarrow> if d < 10 then Some (char_of (48 + d)) else None
                | None \<Rightarrow> None))"

definition is_int_space :: "char \<Rightarrow> bool" where
  "is_int_space c = (let n = (of_char c :: nat) in (9 \<le> n \<and> n \<le> 13) \<or> n = 32)"

fun digits_ok :: "bool \<Rightarrow> string \<Rightarrow> bool" where
  "digits_ok prev [] = prev"
| "digits_ok prev (c # cs) =
     (if is_digit c then digits_ok True cs
      else if c = CHR ''_'' \<and> prev then digits_ok False cs
      else False)"

definition digits_val :: "string \<Rightarrow> int" where
  "digits_val s = foldl (\<lambda>a c. 10 * a + (int (of_char c) - 48)) 0 (filter is_digit s)"

definition py_digits :: "string \<Rightarrow> int option" where
  "py_digits s = (if digits_ok False s then Some (digits_val s) else None)"

definition py_int :: "(string \<Rightarrow> nat option) \<Rightarrow> string \<Rightarrow> int option" where
  "py_int dec s =
     (case those (map (int_ascii dec) (code_points s)) of
        None \<Rightarrow> None
      | Some t \<Rightarrow>
          (case rev (dropWhile is_int_space (rev (dropWhile is_int_space t))) of
             [] \<Rightarrow> None
           | c # r \<Rightarrow>
               if c = CHR ''-'' then map_option uminus (py_digits r)
               else if c = CHR ''+'' then py_digits r
               else py_digits (c # r)))"

section \<open>The Place dataclass\<close>

text \<open>
  A \<open>float\<close> is kept as the number of its IEEE-754 bit pattern. The parser \<open>float(s)\<close> is
  a parameter of the environment and its results are only stored.
\<close>

datatype pyfloat = Double int

datatype pyval = PyNone | PyInt int | PyFloat pyfloat | PyStr string

text \<open>
  The sixteen declared fields with their defaults, and \<open>instance_attrs\<close> for the attributes
  that an assignment adds to the instance without their being fields of the dataclass.
\<close>

record Place =
  name :: string
  maps_url :: string
  email :: string
  website :: string
  address :: string
  phone_number :: string
  reviews_count :: pyval
  reviews_average :: pyval
  place_type :: string
  introduction :: string
  social_media_urls :: string
  category :: string
  latitude :: string
  longitude :: string
  weekly_hours :: string
  tags :: string
  instance_attrs :: "(string \<times> string) list"

definition Place_init :: Place where
  "Place_init = \<lparr> name = [], maps_url = [], email = [], website = [], address = [],
     phone_number = [], reviews_count = PyNone, reviews_average = PyNone, place_type = [],
     introduction = [], social_media_urls = [], category = [], latitude = [], longitude = [],
     weekly_hours = [], tags = [], instance_attrs = [] \<rparr>"

text \<open>\<open>dataclasses.asdict\<close>: the declared fields, in declaration order, and nothing else.\<close>

definition asdict :: "Place \<Rightarrow> (string \<times> pyval) list" where
  "asdict p =
     [(''name'', PyStr (name p)), (''maps_url'', PyStr (maps_url p)),
      (''email'', PyStr (email p)), (''website'', PyStr (website p)),
      (''address'', PyStr (address p)), (''phone_number'', PyStr (phone_number p)),
      (''reviews_count'', reviews_count p), (''reviews_average'', reviews_average p),
      (''place_type'', PyStr (place_type p)), (''introduction'', PyStr (introduction p)),
      (''social_media_urls'', PyStr (social_media_urls p)), (''category'', PyStr (category p)),
      (''latitude'', PyStr (latitude p)), (''longitude'', PyStr (longitude p)),
      (''weekly_hours'', PyStr (weekly_hours p)), (''tags'', PyStr (tags p))]"

section \<open>The page and the network, as the extractor sees them\<close>

text \<open>
  A call into the browser or the network either raises or returns. \<open>Raised e\<close> carries the
  text of the exception.
\<close>

datatype 'a attempt = Raised string | Got 'a

text \<open>
  What each selector of \<open>extract_place\<close> finds on the loaded detail view. For a text
  selector: \<open>Got None\<close> when it matches nothing, \<open>Got (Some t)\<close> for the inner text,
  \<open>Raised e\<close> when the lookup raises. The fields carry the names of the source's selectors.
\<close>

record page =
  name_xpath :: "string option attempt"
  address_xpath :: "string option attempt"
  website_xpath :: "string option attempt"
  phone_number_xpath :: "string option attempt"
  reviews_count_xpath :: "string option attempt"
  reviews_average_xpath :: "string option attempt"
  opens_at_xpath :: "string option attempt"
  opens_at_xpath2 :: "string option attempt"
  place_type_xpath :: "string option attempt"
  intro_xpath :: "string option attempt"
  link_el :: "string option option attempt"
  url :: string
  email_links :: "string option list attempt"
  all_links_in_details :: "string option attempt list attempt"
  weekly_hours_xpath :: "string list list option attempt"
  tag_els :: "string attempt list attempt"

text \<open>
  \<open>link_el\<close>: \<open>Got None\<close> for no place link, \<open>Got (Some h)\<close> for the \<open>href\<close> attribute
  (\<open>None\<close> when absent) of the first one. \<open>email_links\<close>: the \<open>href\<close> of every mailto link;
  \<open>Raised\<close> stands for an exception anywhere in that \<open>try\<close> block, which assigns nothing
  before its last line. \<open>all_links_in_details\<close>: the outer attempt is the \<open>.all()\<close> call
  (outside any \<open>try\<close>), the inner ones are the \<open>get_attribute\<close> calls.
  \<open>weekly_hours_xpath\<close>: the rows of the hours table, each the stripped texts of its cells.
  \<open>tag_els\<close>: the inner texts of the chip elements.
\<close>

record env =
  requests_get :: "string \<Rightarrow> (nat \<times> string) attempt"
  str_hash :: "string \<Rightarrow> nat"
  py_float :: "string \<Rightarrow> pyfloat option"
  unicode_alnum :: "string \<Rightarrow> bool"
  unicode_decimal :: "string \<Rightarrow> nat option"

text \<open>
  \<open>requests_get u\<close> is \<open>requests.get(u, headers, timeout=5, proxies)\<close>: the status code and the
  body, or the exception (a timeout is one). \<open>py_float\<close> is \<open>float(s)\<close>, \<open>None\<close> its
  \<open>ValueError\<close>. \<open>unicode_alnum\<close> and \<open>unicode_decimal\<close> are the tables of the Unicode
  database for the code points beyond ASCII: whether one is a letter or a number, which
  makes it a word character of \<open>\w\<close>, and its value when it is a decimal digit, which makes
  it a digit of \<open>\d\<close> and of \<open>int\<close>.
\<close>

section \<open>extract_text and extract_email_from_website\<close>

definition extract_text :: "string option attempt \<Rightarrow> string" where
  "extract_text r = (case r of Got (Some t) \<Rightarrow> t | Got None \<Rightarrow> [] | Raised e \<Rightarrow> [])"

text \<open>
  \<open>re.findall(r"[\w\.-]+@[\w\.-]+", text)\<close>, on the code points of the text. The class
  has no \<open>@\<close> in it, so the longest run is the only candidate at a position; when no match
  starts at a position the search goes on at the next code point.
\<close>

definition email_class :: "(string \<Rightarrow> bool) \<Rightarrow> string \<Rightarrow> bool" where
  "email_class alnum cp =
     (case cp of
        [c] \<Rightarrow> is_word c \<or> c = CHR ''.'' \<or> c = CHR ''-''
      | _ \<Rightarrow> alnum cp)"

definition email_match_at :: "(string \<Rightarrow> bool) \<Rightarrow> string list \<Rightarrow> (string \<times> string list) option" where
  "email_match_at alnum cps =
     (let u = takeWhile (email_class alnum) cps in
      if u = [] then None
      else case dropWhile (email_class alnum) cps of
             [] \<Rightarrow> None
           | c # r \<Rightarrow>
               if c = ''@'' \<and> takeWhile (email_class alnum) r \<noteq> []
               then Some (concat (u @ [''@''] @ takeWhile (email_class alnum) r),
                          dropWhile (email_class alnum) r)
               else None)"

function findall_at :: "(string \<Rightarrow> bool) \<Rightarrow> string list \<Rightarrow> string list" where
  "findall_at alnum [] = []"
| "findall_at alnum (c # cs) =
     (case email_match_at alnum (c # cs) of
        Some (m, rest) \<Rightarrow> m # findall_at alnum rest
      | None \<Rightarrow> findall_at alnum cs)"
  by pat_completeness auto
termination
proof (relation "measure (\<lambda>(alnum, cps). length cps)")
  show "wf (measure (\<lambda>(alnum, cps). length cps))" by simp
next
  fix alnum :: "string \<Rightarrow> bool" and c cs x2 m rest
  assume a: "email_match_at alnum (c # cs) = Some x2" "(m, rest) = x2"
  have d: "length (dropWhile (email_class alnum) xs) \<le> length xs" for xs
    by (simp add: length_dropWhile_le)
  from a obtain c' r where s: "dropWhile (email_class alnum) (c # cs) = c' # r"
    and r: "rest = dropWhile (email_class alnum) r"
    by (auto simp: email_match_at_def Let_def split: if_splits list.splits)
  have "length rest \<le> length r" using r d by simp
  also have "length r < length (dropWhile (email_class alnum) (c # cs))" using s by simp
  also have "\<dots> \<le> length (c # cs)" by (rule d)
  finally show "((alnum, rest), (alnum, c # cs)) \<in> measure (\<lambda>(alnum, cps). length cps)" by simp
next
  fix alnum :: "string \<Rightarrow> bool" and c cs
  assume "email_match_at alnum (c # cs) = None"
  show "((alnum, cs), (alnum, c # cs)) \<in> measure (\<lambda>(alnum, cps). length cps)" by simp
qed

definition findall_email :: "(string \<Rightarrow> bool) \<Rightarrow> string \<Rightarrow> string list" where
  "findall_email alnum body = findall_at alnum (code_points body)"

text \<open>
  The body of the \<open>try\<close> block: \<open>Got (Some r)\<close> is \<open>return r\<close> inside it, \<open>Got None\<close> is
  falling out of it, \<open>Raised e\<close> is an exception of \<open>requests.get\<close>.
\<close>

definition fetch_emails :: "env \<Rightarrow> string \<Rightarrow> string option attempt" where
  "fetch_emails ev website_url =
     (case requests_get ev website_url of
        Raised e \<Rightarrow> Raised e
      | Got (status_code, body) \<Rightarrow>
          if status_code = 200
          then (let emails = findall_email (unicode_alnum ev) body in
                if emails \<noteq> [] then Got (Some (py_join '', '' (set_iter (str_hash ev) emails)))
                else Got None)
          else Got None)"

definition extract_email_from_website :: "env \<Rightarrow> string \<Rightarrow> string attempt" where
  "extract_email_from_website ev website_url =
     (if website_url = [] \<or> website_url \<in> set [no_website, sentinel] then Got sentinel
      else case fetch_emails ev website_url of
             Got (Some r) \<Rightarrow> Got r
           | Got None \<Rightarrow> Got sentinel
           | Raised e \<Rightarrow> Got sentinel)"

section \<open>extract_place\<close>

definition or_sentinel :: "string \<Rightarrow> string" where
  "or_sentinel t = (if t \<noteq> [] then t else sentinel)"

text \<open>Lines 86 to 98: the canonical link.\<close>

definition extract_maps_url :: "page \<Rightarrow> string" where
  "extract_maps_url pg =
     (case link_el pg of
        Raised e \<Rightarrow> url pg
      | Got None \<Rightarrow> url pg
      | Got (Some None) \<Rightarrow> sentinel
      | Got (Some (Some href)) \<Rightarrow>
          if href \<noteq> [] \<and> prefix ''http'' href then href
          else if href \<noteq> [] then ''https://www.google.com'' @ href
          else sentinel)"

text \<open>Lines 100 to 108: the mailto links of the view.\<close>

definition mailto_addresses :: "string option list \<Rightarrow> string list" where
  "mailto_addresses hs =
     map (py_replace ''mailto:'' []) (filter (\<lambda>h. h \<noteq> []) (map the (filter (\<lambda>h. h \<noteq> None) hs)))"

definition extract_email_links :: "env \<Rightarrow> page \<Rightarrow> string" where
  "extract_email_links ev pg =
     (case email_links pg of
        Raised e \<Rightarrow> sentinel
      | Got hs \<Rightarrow>
          if hs \<noteq> [] \<and> mailto_addresses hs \<noteq> []
          then py_join '', '' (set_iter (str_hash ev) (mailto_addresses hs))
          else sentinel)"

definition social_media_domains_list :: "string list" where
  "social_media_domains_list =
     [''facebook.com'', ''instagram.com'', ''linkedin.com'', ''twitter.com'', ''x.com'',
      ''youtube.com'']"

definition is_social :: "string \<Rightarrow> bool" where
  "is_social href = list_ex (\<lambda>domain_part. py_in domain_part (py_lower href)) social_media_domains_list"

text \<open>
  Lines 140 to 153: the loop over the links of the detail pane, with the set of links
  already processed and the list of social links found so far. A \<open>get_attribute\<close> that
  raises is logged and the loop goes on.
\<close>

fun scan_links :: "string option attempt list \<Rightarrow> string set \<Rightarrow> string list \<Rightarrow> string list" where
  "scan_links [] processed found = found"
| "scan_links (Raised e # ls) processed found = scan_links ls processed found"
| "scan_links (Got None # ls) processed found = scan_links ls processed found"
| "scan_links (Got (Some href) # ls) processed found =
     (if href \<noteq> [] \<and> href \<notin> processed
      then scan_links ls (insert href processed) (if is_social href then found @ [href] else found)
      else scan_links ls processed found)"

text \<open>Lines 157 to 176: the two numbers. A parse failure leaves the field as it was.\<close>

definition clean_count :: "string \<Rightarrow> string" where
  "clean_count raw =
     py_replace '' '' [] (py_replace '','' [] (py_replace '')'' [] (py_replace ''('' []
       (py_replace nnbsp [] (py_replace nbsp [] raw)))))"

definition parse_reviews_count :: "env \<Rightarrow> string \<Rightarrow> pyval \<Rightarrow> pyval" where
  "parse_reviews_count ev reviews_count_raw old =
     (if reviews_count_raw \<noteq> []
      then (case py_int (unicode_decimal ev) (clean_count reviews_count_raw) of
              Some n \<Rightarrow> PyInt n
            | None \<Rightarrow> old)
      else PyStr sentinel)"

definition parse_reviews_average :: "env \<Rightarrow> string \<Rightarrow> pyval \<Rightarrow> pyval" where
  "parse_reviews_average ev reviews_avg_raw old =
     (if reviews_avg_raw \<noteq> []
      then (case py_float ev (py_replace '','' ''.'' (py_replace '' '' [] reviews_avg_raw)) of
              Some x \<Rightarrow> PyFloat x
            | None \<Rightarrow> old)
      else PyStr sentinel)"

text \<open>Lines 179 to 222: the open and close times.\<close>

definition truthy :: "string option \<Rightarrow> bool" where
  "truthy v = (case v of None \<Rightarrow> False | Some t \<Rightarrow> t \<noteq> [])"

definition worktime_step :: "string option \<times> string option \<Rightarrow> string \<Rightarrow> string option \<times> string option" where
  "worktime_step oc part =
     (case oc of (open_time, close_time) \<Rightarrow>
        if prefix ''open'' (py_lower part) then (Some part, close_time)
        else if prefix ''closes'' (py_lower part) \<or> prefix ''close'' (py_lower part)
          then (open_time, Some part)
        else if py_in '':'' part
          then (if \<not> truthy close_time then (open_time, Some (''Closes '' @ part))
                else (open_time, close_time))
        else (open_time, close_time))"

definition worktime_of :: "string \<Rightarrow> string" where
  "worktime_of raw =
     (let parts = filter (\<lambda>p. p \<noteq> []) (map py_strip (py_split dot_operator raw))
      in case foldl worktime_step (None, None) parts of (open_time, close_time) \<Rightarrow>
        if truthy open_time \<and> truthy close_time then the open_time @ '', '' @ the close_time
        else if truthy open_time then the open_time
        else if truthy close_time then the close_time
        else py_replace nnbsp [] raw)"

definition extract_worktime :: "page \<Rightarrow> string" where
  "extract_worktime pg =
     (let opens_at_raw = extract_text (opens_at_xpath pg) in
      if opens_at_raw \<noteq> [] then worktime_of opens_at_raw
      else (let opens_at2_raw = extract_text (opens_at_xpath2 pg) in
            if opens_at2_raw \<noteq> [] then worktime_of opens_at2_raw else sentinel))"

text \<open>
  Lines 226 to 237: \<open>re.search(r'@([\d\.\-]+),([\d\.\-]+),', page.url)\<close>, on the code points
  of the URL. The class has no comma in it, so each group is the longest run.
\<close>

definition coord_class :: "(string \<Rightarrow> nat option) \<Rightarrow> string \<Rightarrow> bool" where
  "coord_class dec cp =
     (case cp of
        [c] \<Rightarrow> is_digit c \<or> c = CHR ''.'' \<or> c = CHR ''-''
      | _ \<Rightarrow> dec cp \<noteq> None)"

definition coords_at :: "(string \<Rightarrow> nat option) \<Rightarrow> string list \<Rightarrow> (string \<times> string) option" where
  "coords_at dec cps =
     (let lat = takeWhile (coord_class dec) cps in
      if lat = [] then None
      else case dropWhile (coord_class dec) cps of
             [] \<Rightarrow> None
           | c # r \<Rightarrow>
               if c = '','' \<and> takeWhile (coord_class dec) r \<noteq> []
                  \<and> (case dropWhile (coord_class dec) r of [] \<Rightarrow> False | d # r' \<Rightarrow> d = '','')
               then Some (concat lat, concat (takeWhile (coord_class dec) r))
               else None)"

fun search_at :: "(string \<Rightarrow> nat option) \<Rightarrow> string list \<Rightarrow> (string \<times> string) option" where
  "search_at dec [] = None"
| "search_at dec (c # cs) =
     (if c = ''@''
      then (case coords_at dec cs of Some m \<Rightarrow> Some m | None \<Rightarrow> search_at dec cs)
      else search_at dec cs)"

definition search_coords :: "(string \<Rightarrow> nat option) \<Rightarrow> string \<Rightarrow> (string \<times> string) option" where
  "search_coords dec u = search_at dec (code_points u)"

text \<open>Lines 240 to 258: the table of weekly hours.\<close>

definition hours_of_rows :: "string list list \<Rightarrow> string list" where
  "hours_of_rows rows =
     map (\<lambda>cols. cols ! 0 @ '': '' @ cols ! 1) (filter (\<lambda>cols. length cols \<ge> 2) rows)"

definition extract_weekly_hours :: "page \<Rightarrow> string" where
  "extract_weekly_hours pg =
     (case weekly_hours_xpath pg of
        Got (Some rows) \<Rightarrow>
          if hours_of_rows rows \<noteq> [] then py_join ''; '' (hours_of_rows rows) else sentinel
      | Got None \<Rightarrow> sentinel
      | Raised e \<Rightarrow> sentinel)"

text \<open>
  Lines 260 to 269: the tags. An \<open>inner_text\<close> that raises ends the loop and keeps the tags
  collected before it.
\<close>

fun collect_tags :: "string attempt list \<Rightarrow> string list \<Rightarrow> string list" where
  "collect_tags [] tgs = tgs"
| "collect_tags (Raised e # els) tgs = tgs"
| "collect_tags (Got t # els) tgs =
     (if py_strip t \<noteq> [] \<and> py_strip t \<notin> set tgs then collect_tags els (tgs @ [py_strip t])
      else collect_tags els tgs)"

definition extract_tags :: "page \<Rightarrow> string" where
  "extract_tags pg =
     (let tgs = (case tag_els pg of Raised e \<Rightarrow> [] | Got els \<Rightarrow> collect_tags els [])
      in if tgs \<noteq> [] then py_join '', '' tgs else sentinel)"

text \<open>
  The assignments of the function, in the order of the source, given the result of the
  website fetch and the links of the detail pane.
\<close>

definition build_place :: "env \<Rightarrow> page \<Rightarrow> string \<Rightarrow> string option attempt list \<Rightarrow> Place" where
  "build_place ev pg email_from_site links =
     (let website_url = extract_text (website_xpath pg);
          email0 = extract_email_links ev pg;
          is_main_website_social = (website_url \<noteq> [] \<and> is_social website_url);
          intro_val = extract_text (intro_xpath pg);
          coords = search_coords (unicode_decimal ev) (url pg);
          lat = (case coords of Some (a, b) \<Rightarrow> a | None \<Rightarrow> []);
          lng = (case coords of Some (a, b) \<Rightarrow> b | None \<Rightarrow> [])
      in Place_init\<lparr>
           name := or_sentinel (extract_text (name_xpath pg)),
           maps_url := extract_maps_url pg,
           email := (if email0 = sentinel \<and> email_from_site \<noteq> sentinel then email_from_site else email0),
           website := (if is_main_website_social then no_website else or_sentinel website_url),
           address := or_sentinel (extract_text (address_xpath pg)),
           phone_number := or_sentinel (extract_text (phone_number_xpath pg)),
           place_type := or_sentinel (extract_text (place_type_xpath pg)),
           introduction := (if intro_val \<noteq> [] \<and> py_strip intro_val \<noteq> [] then intro_val else sentinel),
           social_media_urls := or_sentinel (py_join '', '' (sorted_set
             (scan_links links {} (if is_main_website_social then [website_url] else [])))),
           reviews_count := parse_reviews_count ev (extract_text (reviews_count_xpath pg))
             (reviews_count Place_init),
           reviews_average := parse_reviews_average ev (extract_text (reviews_average_xpath pg))
             (reviews_average Place_init),
           instance_attrs := AList.update ''worktime'' (extract_worktime pg) (instance_attrs Place_init),
           latitude := or_sentinel lat,
           longitude := or_sentinel lng,
           weekly_hours := extract_weekly_hours pg,
           tags := extract_tags pg\<rparr>)"

text \<open>
  The whole function. The only call outside every \<open>try\<close> that can raise is the \<open>.all()\<close>
  of line 140; \<open>Inl e\<close> is that exception leaving \<open>extract_place\<close>.
\<close>

definition extract_place :: "env \<Rightarrow> page \<Rightarrow> string + Place" where
  "extract_place ev pg =
     (case extract_email_from_website ev (extract_text (website_xpath pg)) of
        Raised e \<Rightarrow> Inl e
      | Got email_from_site \<Rightarrow>
          (case all_links_in_details pg of
             Raised e \<Rightarrow> Inl e
           | Got links \<Rightarrow> Inr (build_place ev pg email_from_site links)))"

text \<open>A detail view on which no selector finds anything.\<close>

definition empty_view :: page where
  "empty_view = \<lparr> name_xpath = Got None, address_xpath = Got None, website_xpath = Got None,
     phone_number_xpath = Got None, reviews_count_xpath = Got None,
     reviews_average_xpath = Got None, opens_at_xpath = Got None, opens_at_xpath2 = Got None,
     place_type_xpath = Got None, intro_xpath = Got None, link_el = Got None,
     url = ''https://www.google.com/maps'', email_links = Got [], all_links_in_details = Got [],
     weekly_hours_xpath = Got None, tag_els = Got [] \<rparr>"

text \<open>
  An excerpt of the Unicode tables, enough for the examples: the letters U+00E9 and U+00FC,
  and the Arabic-Indic digits U+0660 to U+0669.
\<close>

definition sample_decimal :: "string \<Rightarrow> nat option" where
  "sample_decimal cp =
     (case cp of
        [a, b] \<Rightarrow>
          if a = CHR 0xD9 \<and> 160 \<le> (of_char b :: nat) \<and> (of_char b :: nat) \<le> 169
          then Some (of_char b - 160) else None
      | _ \<Rightarrow> None)"

definition sample_alnum :: "string \<Rightarrow> bool" where
  "sample_alnum cp =
     (cp \<in> set [[CHR 0xC3, CHR 0xA9], [CHR 0xC3, CHR 0xBC]]
      \<or> (case sample_decimal cp of Some d \<Rightarrow> True | None \<Rightarrow> False))"

text \<open>A network that is down.\<close>

definition offline :: env where
  "offline = \<lparr> requests_get = (\<lambda>u. Raised ''ConnectionError''), str_hash = (\<lambda>s. 0),
     py_float = (\<lambda>s. None), unicode_alnum = sample_alnum, unicode_decimal = sample_decimal \<rparr>"

section \<open>The listing walk\<close>

text \<open>\<open>str(n)\<close> for the listing number of an error message.\<close>

function show_nat :: "nat \<Rightarrow> string" where
  "show_nat n =
     (if n < 10 then [char_of (48 + n)] else show_nat (n div 10) @ [char_of (48 + n mod 10)])"
  by pat_completeness auto
termination
  by (relation "measure id") auto

declare show_nat.simps [simp del]

text \<open>
  The variables of \<open>_scrape_places_with_browser\<close> that the loop over the listings changes.
  \<open>errors\<close> is the list the caller passes in.
\<close>

record walk_state =
  places :: "Place list"
  unique_keys :: "(string \<times> string) fset"
  errors :: "string list"

definition place_key :: "Place \<Rightarrow> string \<times> string" where
  "place_key place = (py_strip (name place), py_strip (address place))"

text \<open>Lines 330 to 334.\<close>

definition add_place :: "Place \<Rightarrow> walk_state \<Rightarrow> walk_state" where
  "add_place place st =
     (if name place \<noteq> [] \<and> place_key place |\<notin>| unique_keys st
      then st\<lparr>unique_keys := finsert (place_key place) (unique_keys st),
              places := places st @ [place]\<rparr>
      else st)"

text \<open>Lines 337 to 341.\<close>

definition log_failure :: "nat \<Rightarrow> string \<Rightarrow> walk_state \<Rightarrow> walk_state" where
  "log_failure idx e st =
     st\<lparr>errors := errors st @ [''Failed to extract listing '' @ show_nat (idx + 1) @ '': '' @ e]\<rparr>"

text \<open>
  Lines 324 to 341, the \<open>for\<close> loop over the listings of one scroll cycle. A listing is
  \<open>Raised e\<close> when its click or the wait for its title raises, and \<open>Got pg\<close> with the detail
  view it opens. The \<open>break\<close> is only reached when nothing raised.
\<close>

fun process_listings :: "env \<Rightarrow> int \<Rightarrow> nat \<Rightarrow> page attempt list \<Rightarrow> walk_state \<Rightarrow> walk_state" where
  "process_listings ev total_n idx [] st = st"
| "process_listings ev total_n idx (Raised e # listings) st =
     process_listings ev total_n (Suc idx) listings (log_failure idx e st)"
| "process_listings ev total_n idx (Got pg # listings) st =
     (case extract_place ev pg of
        Inl e \<Rightarrow> process_listings ev total_n (Suc idx) listings (log_failure idx e st)
      | Inr place \<Rightarrow>
          if int (length (places (add_place place st))) \<ge> total_n then add_place place st
          else process_listings ev total_n (Suc idx) listings (add_place place st))"

definition max_scroll_attempts :: nat where
  "max_scroll_attempts = 10"

text \<open>
  Lines 318 to 351, the \<open>while True\<close> loop. \<open>feed n\<close> is what scroll cycle \<open>n\<close> brings: the
  listings on the panel after the scroll, or \<open>Raised e\<close> when the scroll, the wait or the
  enumeration raises, which leaves the loop.
\<close>

definition next_attempts :: "nat \<Rightarrow> nat \<Rightarrow> walk_state \<Rightarrow> nat" where
  "next_attempts scroll_attempts last_unique_count st =
     (if fcard (unique_keys st) = last_unique_count then scroll_attempts + 1 else 0)"

function scroll_loop ::
  "env \<Rightarrow> (nat \<Rightarrow> page attempt list attempt) \<Rightarrow> int \<Rightarrow> nat \<Rightarrow> nat \<Rightarrow> nat \<Rightarrow> walk_state
   \<Rightarrow> string + walk_state" where
  "scroll_loop ev feed total_n cycle scroll_attempts last_unique_count st =
     (case feed cycle of
        Raised e \<Rightarrow> Inl e
      | Got listings \<Rightarrow>
          if int (length (places (process_listings ev total_n 0 listings st))) \<ge> total_n
          then Inr (process_listings ev total_n 0 listings st)
          else if next_attempts scroll_attempts last_unique_count
                    (process_listings ev total_n 0 listings st) \<ge> max_scroll_attempts
          then Inr (process_listings ev total_n 0 listings st)
          else scroll_loop ev feed total_n (Suc cycle)
                 (next_attempts scroll_attempts last_unique_count
                    (process_listings ev total_n 0 listings st))
                 (fcard (unique_keys (process_listings ev total_n 0 listings st)))
                 (process_listings ev total_n 0 listings st))"
  by pat_completeness auto
termination
proof (relation "measures
    [\<lambda>(ev, feed, total_n, cycle, sa, last, st). nat (total_n - int (length (places st))),
     \<lambda>(ev, feed, total_n, cycle, sa, last, st). if last = fcard (unique_keys st) then 0 else 1,
     \<lambda>(ev, feed, total_n, cycle, sa, last, st). max_scroll_attempts - sa]")
  show "wf (measures
    [\<lambda>(ev, feed, total_n, cycle, sa, last, st). nat (total_n - int (length (places st))),
     \<lambda>(ev, feed, total_n, cycle, sa, last, st). if last = fcard (unique_keys st) then 0 else 1,
     \<lambda>(ev, feed, total_n, cycle, sa, last, st). max_scroll_attempts - sa])" by simp
next
  fix ev :: env and feed :: "nat \<Rightarrow> page attempt list attempt" and total_n :: int
    and cycle sa last :: nat and st :: walk_state and listings
  let ?st = "process_listings ev total_n 0 listings st"
  assume run: "\<not> total_n \<le> int (length (places ?st))"
    and go: "\<not> max_scroll_attempts \<le> next_attempts sa last ?st"
  have add: "length (places (add_place q s)) + fcard (unique_keys s)
      = length (places s) + fcard (unique_keys (add_place q s))" for q s
    by (simp add: add_place_def fcard_finsert_disjoint)
  have grow: "length (places (process_listings ev total_n i ls s)) + fcard (unique_keys s)
      = length (places s) + fcard (unique_keys (process_listings ev total_n i ls s))
      \<and> fcard (unique_keys s) \<le> fcard (unique_keys (process_listings ev total_n i ls s))" for i ls s
  proof (induction ev total_n i ls s rule: process_listings.induct)
    case (1 ev total_n idx st)
    then show ?case by simp
  next
    case (2 ev total_n idx e listings st)
    then show ?case by (simp add: log_failure_def)
  next
    case (3 ev total_n idx pg listings st)
    have le: "fcard (unique_keys st) \<le> fcard (unique_keys (add_place q st))" for q
      by (simp add: add_place_def fcard_finsert_disjoint)
    show ?case
    proof (cases "extract_place ev pg")
      case (Inl e)
      with 3 show ?thesis by (simp add: log_failure_def)
    next
      case (Inr q)
      show ?thesis
      proof (cases "total_n \<le> int (length (places (add_place q st)))")
        case True
        with Inr show ?thesis using add[of q st] le[of q] by simp
      next
        case False
        with Inr 3(2)[of q] show ?thesis using add[of q st] le[of q] by simp
      qed
    qed
  qed
  from grow[of 0 listings st] run go
  show "((ev, feed, total_n, Suc cycle, next_attempts sa last ?st, fcard (unique_keys ?st), ?st),
         (ev, feed, total_n, cycle, sa, last, st))
        \<in> measures
    [\<lambda>(ev, feed, total_n, cycle, sa, last, st). nat (total_n - int (length (places st))),
     \<lambda>(ev, feed, total_n, cycle, sa, last, st). if last = fcard (unique_keys st) then 0 else 1,
     \<lambda>(ev, feed, total_n, cycle, sa, last, st). max_scroll_attempts - sa]"
    by (auto simp: next_attempts_def max_scroll_attempts_def split: if_splits)
qed

declare scroll_loop.simps [simp del]

text \<open>The number of scroll cycles the loop can still run from a state.\<close>

definition cycles_left :: "int \<Rightarrow> nat \<Rightarrow> nat \<Rightarrow> walk_state \<Rightarrow> nat" where
  "cycles_left total_n scroll_attempts last_unique_count st =
     (if total_n \<le> int (length (places st)) then 1
      else 10 * nat (total_n - int (length (places st)) - 1)
           + (if last_unique_count = fcard (unique_keys st) then max 1 (10 - scroll_attempts)
              else 11))"

section \<open>Browser sessions\<close>

text \<open>
  A browser as the walk meets it: whether \<open>new_page\<close> works, whether the search of lines
  307 to 312 works, and the scroll cycles after it.
\<close>

record browser =
  new_page_result :: "unit attempt"
  search_result :: "unit attempt"
  scroll_feed :: "nat \<Rightarrow> page attempt list attempt"

text \<open>What happens to the resources, in order.\<close>

datatype event =
  PlaywrightStart | BrowserLaunch | NewPage | PageClose | BrowserClose
  | WriteErrors "string list" | PlaywrightStop

text \<open>
  What the events do to the sessions of one Playwright instance: the number of browsers and
  of pages that are open. Closing a browser closes its pages. Leaving the \<open>with\<close> block of
  \<open>sync_playwright\<close> stops the driver, and with it every browser it launched.
\<close>

record resources =
  browsers_open :: nat
  pages_open :: nat

fun apply_event :: "event \<Rightarrow> resources \<Rightarrow> resources" where
  "apply_event BrowserLaunch r = r\<lparr>browsers_open := Suc (browsers_open r)\<rparr>"
| "apply_event NewPage r = r\<lparr>pages_open := Suc (pages_open r)\<rparr>"
| "apply_event PageClose r = r\<lparr>pages_open := pages_open r - 1\<rparr>"
| "apply_event BrowserClose r = r\<lparr>browsers_open := browsers_open r - 1, pages_open := 0\<rparr>"
| "apply_event PlaywrightStop r = r\<lparr>browsers_open := 0, pages_open := 0\<rparr>"
| "apply_event PlaywrightStart r = r"
| "apply_event (WriteErrors errs) r = r"

definition after_events :: "event list \<Rightarrow> resources \<Rightarrow> resources" where
  "after_events evs r = foldl (\<lambda>r e. apply_event e r) r evs"

text \<open>
  \<open>_scrape_places_with_browser\<close>. \<open>new_page\<close> is outside the \<open>try\<close>; everything after it is
  inside, and \<open>finally\<close> closes the page.
\<close>

definition scrape_places_with_browser ::
  "env \<Rightarrow> browser \<Rightarrow> int \<Rightarrow> string list \<Rightarrow> event list \<times> (string + walk_state)" where
  "scrape_places_with_browser ev b total_n errs =
     (case new_page_result b of
        Raised e \<Rightarrow> ([], Inl e)
      | Got u \<Rightarrow>
          (case search_result b of
             Raised e \<Rightarrow> ([NewPage, PageClose], Inl e)
           | Got v \<Rightarrow>
               ([NewPage, PageClose],
                scroll_loop ev (scroll_feed b) total_n 0 0 0
                  \<lparr>places = [], unique_keys = {||}, errors = errs\<rparr>)))"

definition write_errors :: "string list \<Rightarrow> event list" where
  "write_errors errs = (if errs \<noteq> [] then [WriteErrors errs] else [])"

text \<open>
  \<open>scrape_places\<close>. \<open>browser_arg\<close> is the \<open>browser\<close> parameter; \<open>launch\<close> is what
  \<open>p.chromium.launch\<close> gives when the function has to start a browser itself. Leaving the
  \<open>with sync_playwright()\<close> block, normally or by an exception, is \<open>PlaywrightStop\<close>.
\<close>

definition scrape_places ::
  "env \<Rightarrow> browser attempt \<Rightarrow> int \<Rightarrow> browser option \<Rightarrow> event list \<times> (string + Place list)" where
  "scrape_places ev launch total_n browser_arg =
     (case browser_arg of
        None \<Rightarrow>
          (case launch of
             Raised e \<Rightarrow> ([PlaywrightStart, PlaywrightStop], Inl e)
           | Got b \<Rightarrow>
               (case scrape_places_with_browser ev b total_n [] of
                  (evs, Inl e) \<Rightarrow> ([PlaywrightStart, BrowserLaunch] @ evs @ [PlaywrightStop], Inl e)
                | (evs, Inr st) \<Rightarrow>
                    ([PlaywrightStart, BrowserLaunch] @ evs @ [BrowserClose]
                       @ write_errors (errors st) @ [PlaywrightStop],
                     Inr (places st))))
      | Some b \<Rightarrow>
          (case scrape_places_with_browser ev b total_n [] of
             (evs, Inl e) \<Rightarrow> (evs, Inl e)
           | (evs, Inr st) \<Rightarrow> (evs @ write_errors (errors st), Inr (places st))))"

section \<open>The jobs of main\<close>

text \<open>Line 686.\<close>

definition jobs_of :: "string list \<Rightarrow> string list \<Rightarrow> (string \<times> string) list" where
  "jobs_of categories locations = concat (map (\<lambda>cat. map (\<lambda>loc. (cat, loc)) locations) categories)"

text \<open>
  \<open>scrape_job\<close>, lines 707 to 721, which is also what lines 691 to 703 do for a single job:
  launch a browser, hand it to \<open>scrape_places\<close>, tag the places, close the browser. Nothing
  in it catches an exception.
\<close>

definition scrape_job ::
  "env \<Rightarrow> int \<Rightarrow> browser attempt \<Rightarrow> string \<times> string
   \<Rightarrow> event list \<times> (string + string \<times> Place list)" where
  "scrape_job ev total_n launch job =
     (case job of (cat, loc) \<Rightarrow>
        (case launch of
           Raised e \<Rightarrow> ([PlaywrightStart, PlaywrightStop], Inl e)
         | Got b \<Rightarrow>
             (case scrape_places ev launch total_n (Some b) of
                (evs, Inl e) \<Rightarrow> ([PlaywrightStart, BrowserLaunch] @ evs @ [PlaywrightStop], Inl e)
              | (evs, Inr ps) \<Rightarrow>
                  ([PlaywrightStart, BrowserLaunch] @ evs @ [BrowserClose, PlaywrightStop],
                   Inr (loc, map (\<lambda>place. place\<lparr>category := cat\<rparr>) ps)))))"

text \<open>
  \<open>list(executor.map(scrape_job, jobs))\<close>: the results in the order of the jobs; the first
  job, in that order, that raised has its exception raised again here.
\<close>

fun executor_results :: "(string + 'a) list \<Rightarrow> string + 'a list" where
  "executor_results [] = Inr []"
| "executor_results (Inl e # rs) = Inl e"
| "executor_results (Inr x # rs) =
     (case executor_results rs of Inl e \<Rightarrow> Inl e | Inr xs \<Rightarrow> Inr (x # xs))"

text \<open>Lines 724 to 727. The dictionary keeps the order in which its keys were first stored.\<close>

fun merge_results ::
  "(string \<times> Place list) list \<Rightarrow> (string \<times> Place list) list \<Rightarrow> (string \<times> Place list) list" where
  "merge_results [] location_results = location_results"
| "merge_results ((loc, ps) # results) location_results =
     merge_results results
       (AList.update loc ((case map_of location_results loc of None \<Rightarrow> [] | Some old \<Rightarrow> old) @ ps)
          location_results)"

text \<open>
  Lines 685 to 727. \<open>launches i\<close> is the browser launch of job number \<open>i\<close>. With no job at
  all, \<open>ThreadPoolExecutor(max_workers=0)\<close> raises.
\<close>

definition run_jobs ::
  "env \<Rightarrow> int \<Rightarrow> (nat \<Rightarrow> browser attempt) \<Rightarrow> (string \<times> string) list
   \<Rightarrow> string + (string \<times> Place list) list" where
  "run_jobs ev total_n launches jobs =
     (if length jobs = 1
      then (case snd (scrape_job ev total_n (launches 0) (jobs ! 0)) of
              Inl e \<Rightarrow> Inl e
            | Inr (loc, ps) \<Rightarrow> Inr [(loc, ps)])
      else if jobs = [] then Inl ''max_workers must be greater than 0''
      else (case executor_results
                   (map (\<lambda>(i, job). snd (scrape_job ev total_n (launches i) job)) (enumerate 0 jobs)) of
              Inl e \<Rightarrow> Inl e
            | Inr results \<Rightarrow> Inr (merge_results results [])))"

text \<open>The places that job number \<open>i\<close> hands back, already tagged; none when it raised.\<close>

definition job_places :: "env \<Rightarrow> int \<Rightarrow> browser attempt \<Rightarrow> string \<times> string \<Rightarrow> Place list" where
  "job_places ev total_n launch job =
     (case snd (scrape_job ev total_n launch job) of Inl e \<Rightarrow> [] | Inr (loc, ps) \<Rightarrow> ps)"

text \<open>The outcomes of all the jobs, in the order of the jobs.\<close>

definition job_results ::
  "env \<Rightarrow> int \<Rightarrow> (nat \<Rightarrow> browser attempt) \<Rightarrow> (string \<times> string) list
   \<Rightarrow> (string + string \<times> Place list) list" where
  "job_results ev total_n launches jobs =
     map (\<lambda>(i, job). snd (scrape_job ev total_n (launches i) job)) (enumerate 0 jobs)"

section \<open>Deduplication, as specified\<close>

text \<open>
  The Records that \<open>extract_place\<close> returns on the listings of one cycle, in the order of
  the listings, and those of the cycles before cycle \<open>n\<close>.
\<close>

definition extracted :: "env \<Rightarrow> page attempt list \<Rightarrow> Place list" where
  "extracted ev listings =
     concat (map (\<lambda>listing. case listing of
                    Raised e \<Rightarrow> []
                  | Got pg \<Rightarrow> (case extract_place ev pg of Inl e \<Rightarrow> [] | Inr place \<Rightarrow> [place]))
              listings)"

definition cycle_listings :: "(nat \<Rightarrow> page attempt list attempt) \<Rightarrow> nat \<Rightarrow> page attempt list" where
  "cycle_listings feed n = (case feed n of Got listings \<Rightarrow> listings | Raised e \<Rightarrow> [])"

definition extracted_upto :: "env \<Rightarrow> (nat \<Rightarrow> page attempt list attempt) \<Rightarrow> nat \<Rightarrow> Place list" where
  "extracted_upto ev feed n = concat (map (\<lambda>c. extracted ev (cycle_listings feed c)) [0..<n])"

text \<open>
  Deduplication as the specification words it: the key of a Record is the pair of its
  trimmed name and its trimmed address; of a sequence of Records, a Record is kept iff no
  Record kept before it has the same key. \<open>kept\<close> are those kept so far.
\<close>

fun first_wins :: "Place list \<Rightarrow> Place list \<Rightarrow> Place list" where
  "first_wins kept [] = kept"
| "first_wins kept (p # ps) =
     (if (py_strip (name p), py_strip (address p))
           \<in> (\<lambda>q. (py_strip (name q), py_strip (address q))) ` set kept
      then first_wins kept ps
      else first_wins (kept @ [p]) ps)"

text \<open>The set of keys is the set of the keys of the places collected.\<close>

definition walk_inv :: "walk_state \<Rightarrow> bool" where
  "walk_inv st = (fset (unique_keys st) = place_key ` set (places st))"

section \<open>Example views, networks and browsers\<close>

text \<open>
  Three detail views: a cafe, the same cafe found again with padded name and address, and
  a bakery. Every scroll cycle of \<open>small_town\<close> shows them in that order, with a listing
  in between whose title never appears.
\<close>

definition cafe_view :: page where
  "cafe_view = empty_view\<lparr>name_xpath := Got (Some ''Cafe Atlas''),
     address_xpath := Got (Some ''1 Main St'')\<rparr>"

definition cafe_view_again :: page where
  "cafe_view_again = empty_view\<lparr>name_xpath := Got (Some '' Cafe Atlas''),
     address_xpath := Got (Some ''1 Main St ''), phone_number_xpath := Got (Some ''0537'')\<rparr>"

definition bakery_view :: page where
  "bakery_view = empty_view\<lparr>name_xpath := Got (Some ''Bakery''),
     address_xpath := Got (Some ''2 Main St'')\<rparr>"

definition small_town :: browser where
  "small_town = \<lparr>new_page_result = Got (), search_result = Got (),
     scroll_feed = (\<lambda>n. Got [Got cafe_view, Raised ''Timeout 5000ms exceeded'',
       Got cafe_view_again, Got bakery_view])\<rparr>"

text \<open>
  A street on which the cafe is listed twice, the second time with U+00A0 after its name and
  U+202F before its address, and which has a second cafe of the same name at another
  address.
\<close>

definition cafe_nbsp_view :: page where
  "cafe_nbsp_view = empty_view\<lparr>name_xpath := Got (Some (''Cafe Atlas'' @ nbsp)),
     address_xpath := Got (Some (nnbsp @ ''1 Main St'')),
     phone_number_xpath := Got (Some ''0537'')\<rparr>"

definition cafe_elsewhere_view :: page where
  "cafe_elsewhere_view = empty_view\<lparr>name_xpath := Got (Some ''Cafe Atlas''),
     address_xpath := Got (Some ''9 High St'')\<rparr>"

definition main_street :: browser where
  "main_street = \<lparr>new_page_result = Got (), search_result = Got (),
     scroll_feed = (\<lambda>n. Got [Got cafe_view, Got cafe_nbsp_view,
       Raised ''Timeout 5000ms exceeded'', Got cafe_elsewhere_view, Got bakery_view])\<rparr>"


text \<open>A view whose website field is a social-media page, with four links in its pane.\<close>

definition facebook_view :: page where
  "facebook_view = empty_view\<lparr>website_xpath := Got (Some ''https://facebook.com/x''),
     all_links_in_details := Got [Got (Some ''https://instagram.com/x''),
       Got (Some ''https://example.org''), Raised ''detached'',
       Got (Some ''https://facebook.com/x'')]\<rparr>"

text \<open>
  A network with two sites that answer, one of them with addresses that have the letter
  U+00E9 in them, one site that is gone, and the rest timing out.
\<close>

definition e_acute :: string where
  "e_acute = [CHR 0xC3, CHR 0xA9]"

definition contact_site :: env where
  "contact_site = offline\<lparr>requests_get := (\<lambda>u.
     if u = ''http://shop.example''
     then Got (200, ''Write to info@shop.example or info@shop.example, sales@shop.example.'')
     else if u = ''http://societe.example''
     then Got (200, ''contact@soci'' @ e_acute @ ''t'' @ e_acute @ ''.fr / Jos'' @ e_acute
                    @ ''@example.com'')
     else if u = ''http://gone.example'' then Got (404, ''admin@gone.example'')
     else Raised ''Timeout'')\<rparr>"

text \<open>A view with an opening-hours line and a table of weekly hours.\<close>

definition hours_view :: page where
  "hours_view = empty_view\<lparr>
     opens_at_xpath := Got (Some (''Open '' @ dot_operator @ '' Closes 5 PM'')),
     weekly_hours_xpath := Got (Some [[''Monday'', ''9 AM-5 PM''], [''Sunday'', ''Closed'']])\<rparr>"

text \<open>
  A view whose only mailto link has no address and whose two rating texts cannot be
  parsed; a view on which every selector finds something, the Record expected of it, and a
  \<open>float\<close> that reads \<open>4.5\<close>.
\<close>

definition bare_mailto_view :: page where
  "bare_mailto_view = empty_view\<lparr>reviews_count_xpath := Got (Some ''N/A''),
     reviews_average_xpath := Got (Some ''N/A''), email_links := Got [Some ''mailto:'']\<rparr>"

definition rich_view :: page where
  "rich_view = \<lparr> name_xpath = Got (Some ''Cafe Atlas''),
     address_xpath = Got (Some ''1 Main St, Rabat''),
     website_xpath = Got (Some ''cafe-atlas.example''),
     phone_number_xpath = Got (Some ''0537 000 000''),
     reviews_count_xpath = Got (Some ''(1,234)''),
     reviews_average_xpath = Got (Some ''4,5''),
     opens_at_xpath = Got (Some (''Open '' @ dot_operator @ '' Closes 5 PM'')),
     opens_at_xpath2 = Got None,
     place_type_xpath = Got (Some ''Cafe''),
     intro_xpath = Got (Some ''Coffee and pastries.''),
     link_el = Got (Some (Some ''/maps/place/Cafe+Atlas'')),
     url = ''https://www.google.com/maps/place/Cafe+Atlas/@33.97,-6.85,17z'',
     email_links = Got [Some ''mailto:hello@cafe-atlas.example''],
     all_links_in_details = Got [Got (Some ''https://instagram.com/cafeatlas'')],
     weekly_hours_xpath = Got (Some [[''Monday'', ''9 AM-5 PM'']]),
     tag_els = Got [Got ''Cafe'', Got '' Wi-Fi ''] \<rparr>"

definition with_ratings :: env where
  "with_ratings = offline\<lparr>py_float :=
     (\<lambda>s. if s = ''4.5'' then Some (Double 4616752568008179712) else None)\<rparr>"

definition rich_place :: Place where
  "rich_place = \<lparr> name = ''Cafe Atlas'',
     maps_url = ''https://www.google.com/maps/place/Cafe+Atlas'',
     email = ''hello@cafe-atlas.example'', website = ''cafe-atlas.example'',
     address = ''1 Main St, Rabat'', phone_number = ''0537 000 000'',
     reviews_count = PyInt 1234, reviews_average = PyFloat (Double 4616752568008179712),
     place_type = ''Cafe'', introduction = ''Coffee and pastries.'',
     social_media_urls = ''https://instagram.com/cafeatlas'', category = [],
     latitude = ''33.97'', longitude = ''-6.85'', weekly_hours = ''Monday: 9 AM-5 PM'',
     tags = ''Cafe, Wi-Fi'', instance_attrs = [(''worktime'', ''Open, Closes 5 PM'')] \<rparr>"

text \<open>The job list of the aggregation example.\<close>

definition three_jobs :: "(string \<times> string) list" where
  "three_jobs = [(''A'', ''loc1''), (''B'', ''loc1''), (''A'', ''loc2'')]"

section \<open>Facts about the model\<close>

lemma py_in_sublist: "py_in sub s = sublist sub s"
  by (induction s) (auto simp: sublist_Cons_right)

lemma sublist_py_join: "x \<in> set xs \<Longrightarrow> sublist x (py_join sep xs)"
proof (induction sep xs rule: py_join.induct)
  case (1 sep) then show ?case by simp
next
  case (2 sep y) then show ?case by simp
next
  case (3 sep a b ys)
  show ?case
  proof (cases "x = a")
    case True
    then show ?thesis by (simp add: sublist_append_rightI)
  next
    case False
    with 3 have "sublist x (py_join sep (b # ys))" by simp
    then show ?thesis by (simp add: sublist_append)
  qed
qed

lemma py_join_nonempty: "x \<in> set xs \<Longrightarrow> x \<noteq> [] \<Longrightarrow> py_join sep xs \<noteq> []"
  using sublist_py_join[of x xs sep] by auto

lemma set_iter_set: "set (set_iter h xs) = set xs"
  by (simp add: set_iter_def)

lemma set_iter_distinct: "distinct (set_iter h xs)"
  by (simp add: set_iter_def)

lemma sorted_set_set: "set (sorted_set xs) = set xs"
  by (simp add: sorted_set_def)

lemma sorted_set_distinct: "distinct (sorted_set xs)"
  by (simp add: sorted_set_def)

lemma sorted_set_sorted: "sorted (sorted_set xs)"
  by (simp add: sorted_set_def)

lemma or_sentinel_nonempty: "or_sentinel t \<noteq> []"
  by (simp add: or_sentinel_def sentinel_def)

lemma sentinel_nonempty: "sentinel \<noteq> []"
  by (simp add: sentinel_def)

lemma findall_at_nonempty: "[] \<notin> set (findall_at alnum cps)"
  by (induction alnum cps rule: findall_at.induct)
     (auto simp: email_match_at_def Let_def split: option.splits if_splits list.splits)

lemma findall_email_nonempty: "[] \<notin> set (findall_email alnum body)"
  by (simp add: findall_email_def findall_at_nonempty)

section \<open>Facts about extract_place\<close>

lemma scan_links_append: "scan_links ls P (f0 @ f) = f0 @ scan_links ls P f"
  by (induction ls P f rule: scan_links.induct) auto

lemma set_scan_links:
  "set (scan_links ls P f) = set f \<union> {h. Got (Some h) \<in> set ls \<and> h \<noteq> [] \<and> h \<notin> P \<and> is_social h}"
  by (induction ls P f rule: scan_links.induct) auto

lemma email_site_Got: "\<exists>r. extract_email_from_website ev u = Got r"
  by (simp add: extract_email_from_website_def split: attempt.splits option.splits)

lemma py_join_set_iter_nonempty:
  assumes "xs \<noteq> []" and "[] \<notin> set xs"
  shows "py_join sep (set_iter h xs) \<noteq> []"
proof -
  from assms(1) obtain x where x: "x \<in> set xs" by (cases xs) auto
  with assms(2) have "x \<noteq> []" by auto
  with x show ?thesis by (intro py_join_nonempty[of x]) (simp_all add: set_iter_set)
qed

lemma email_site_nonempty: "extract_email_from_website ev u = Got r \<Longrightarrow> r \<noteq> []"
  by (auto simp: extract_email_from_website_def fetch_emails_def Let_def sentinel_nonempty
        py_join_set_iter_nonempty findall_email_nonempty
      split: attempt.splits option.splits if_splits prod.splits)

lemma extract_place_Inr_iff:
  "extract_place ev pg = Inr p \<longleftrightarrow>
     (\<exists>site links. extract_email_from_website ev (extract_text (website_xpath pg)) = Got site \<and>
        all_links_in_details pg = Got links \<and> p = build_place ev pg site links)"
  by (auto simp: extract_place_def split: attempt.splits)

lemma extract_place_total:
  "all_links_in_details pg = Got links \<Longrightarrow> \<exists>site. extract_place ev pg = Inr (build_place ev pg site links)"
  using email_site_Got[of ev "extract_text (website_xpath pg)"] by (auto simp: extract_place_def)

lemma build_place_fields:
  "name (build_place ev pg site links) = or_sentinel (extract_text (name_xpath pg))"
  "maps_url (build_place ev pg site links) = extract_maps_url pg"
  "email (build_place ev pg site links) =
     (if extract_email_links ev pg = sentinel \<and> site \<noteq> sentinel then site else extract_email_links ev pg)"
  "website (build_place ev pg site links) =
     (if extract_text (website_xpath pg) \<noteq> [] \<and> is_social (extract_text (website_xpath pg))
      then no_website else or_sentinel (extract_text (website_xpath pg)))"
  "address (build_place ev pg site links) = or_sentinel (extract_text (address_xpath pg))"
  "phone_number (build_place ev pg site links) = or_sentinel (extract_text (phone_number_xpath pg))"
  "reviews_count (build_place ev pg site links) =
     parse_reviews_count ev (extract_text (reviews_count_xpath pg)) PyNone"
  "reviews_average (build_place ev pg site links) =
     parse_reviews_average ev (extract_text (reviews_average_xpath pg)) PyNone"
  "place_type (build_place ev pg site links) = or_sentinel (extract_text (place_type_xpath pg))"
  "introduction (build_place ev pg site links) =
     (if extract_text (intro_xpath pg) \<noteq> [] \<and> py_strip (extract_text (intro_xpath pg)) \<noteq> []
      then extract_text (intro_xpath pg) else sentinel)"
  "social_media_urls (build_place ev pg site links) =
     or_sentinel (py_join '', '' (sorted_set (scan_links links {}
       (if extract_text (website_xpath pg) \<noteq> [] \<and> is_social (extract_text (website_xpath pg))
        then [extract_text (website_xpath pg)] else []))))"
  "category (build_place ev pg site links) = []"
  "latitude (build_place ev pg site links) =
     or_sentinel (case search_coords (unicode_decimal ev) (url pg) of Some (a, b) \<Rightarrow> a | None \<Rightarrow> [])"
  "longitude (build_place ev pg site links) =
     or_sentinel (case search_coords (unicode_decimal ev) (url pg) of Some (a, b) \<Rightarrow> b | None \<Rightarrow> [])"
  "weekly_hours (build_place ev pg site links) = extract_weekly_hours pg"
  "tags (build_place ev pg site links) = extract_tags pg"
  "instance_attrs (build_place ev pg site links) = [(''worktime'', extract_worktime pg)]"
  by (simp_all add: build_place_def Let_def Place_init_def)


lemma extract_maps_url_cases:
  "extract_maps_url pg = url pg \<or> extract_maps_url pg = sentinel
   \<or> (\<exists>href. link_el pg = Got (Some (Some href)) \<and> href \<noteq> []
         \<and> extract_maps_url pg
             = (if prefix ''http'' href then href else ''https://www.google.com'' @ href))"
  by (auto simp: extract_maps_url_def split: attempt.splits option.splits)

lemma py_join_set_iter_empty:
  assumes "py_join sep (set_iter h xs) = []"
  shows "set xs \<subseteq> {[]}"
proof
  fix x assume x: "x \<in> set xs"
  then have "x \<in> set (set_iter h xs)" by (simp add: set_iter_set)
  with assms have "x = []" using py_join_nonempty[of x "set_iter h xs" sep] by auto
  then show "x \<in> {[]}" by simp
qed

lemma extract_email_links_cases:
  "extract_email_links ev pg \<noteq> []
   \<or> (\<exists>hs. email_links pg = Got hs \<and> mailto_addresses hs \<noteq> []
         \<and> set (mailto_addresses hs) = {[]})"
proof (cases "extract_email_links ev pg = []")
  case False
  then show ?thesis by simp
next
  case True
  then obtain hs where hs: "email_links pg = Got hs" and ne: "mailto_addresses hs \<noteq> []"
    and j: "py_join '', '' (set_iter (str_hash ev) (mailto_addresses hs)) = []"
    by (auto simp: extract_email_links_def sentinel_nonempty split: attempt.splits if_splits)
  from py_join_set_iter_empty[OF j] ne have "set (mailto_addresses hs) = {[]}"
    by (cases "mailto_addresses hs") auto
  with hs ne show ?thesis by blast
qed

lemma extract_weekly_hours_nonempty: "extract_weekly_hours pg \<noteq> []"
proof -
  have "py_join ''; '' (hours_of_rows rows) \<noteq> []" if ne: "hours_of_rows rows \<noteq> []" for rows
  proof -
    from ne obtain x where x: "x \<in> set (hours_of_rows rows)" by (cases "hours_of_rows rows") auto
    then have "x \<noteq> []" by (auto simp: hours_of_rows_def)
    with x show ?thesis by (rule py_join_nonempty)
  qed
  then show ?thesis
    by (auto simp: extract_weekly_hours_def sentinel_nonempty split: attempt.splits option.splits)
qed

lemma collect_tags_nonempty: "[] \<notin> set tgs \<Longrightarrow> [] \<notin> set (collect_tags els tgs)"
  by (induction els tgs rule: collect_tags.induct) auto

lemma extract_tags_nonempty: "extract_tags pg \<noteq> []"
proof -
  define tgs where "tgs = (case tag_els pg of Raised e \<Rightarrow> [] | Got els \<Rightarrow> collect_tags els [])"
  have n: "[] \<notin> set tgs"
    unfolding tgs_def using collect_tags_nonempty[of "[]"] by (auto split: attempt.splits)
  have "py_join '', '' tgs \<noteq> []" if "tgs \<noteq> []"
  proof -
    from that obtain x where x: "x \<in> set tgs" by (cases tgs) auto
    with n have "x \<noteq> []" by auto
    with x show ?thesis by (rule py_join_nonempty)
  qed
  then show ?thesis
    unfolding extract_tags_def Let_def tgs_def[symmetric] by (simp add: sentinel_nonempty)
qed

text \<open>
  C3, as stated: every field of every Record that \<open>extract_place\<close> returns is a parsed value
  or a sentinel, never \<open>None\<close> or the empty string, the two numbers included on the path
  where parsing fails. It fails: on a view whose only mailto link has no address and whose
  two rating texts are \<open>N/A\<close>, the Record has the empty \<open>category\<close>, the empty \<open>email\<close> and
  \<open>None\<close> in both numeric fields.
\<close>

theorem sentinel_totality_counterexample:
  "map_sum id (\<lambda>p. (category p, email p, reviews_count p, reviews_average p))
     (extract_place offline bare_mailto_view)
   = Inr ([], [], PyNone, PyNone)"
  by code_simp

text \<open>
  C3, amended: in every Record that \<open>extract_place\<close> returns, \<open>name\<close>, \<open>website\<close>, \<open>address\<close>,
  \<open>phone_number\<close>, \<open>place_type\<close>, \<open>introduction\<close>, \<open>social_media_urls\<close>, \<open>latitude\<close>,
  \<open>longitude\<close>, \<open>weekly_hours\<close> and \<open>tags\<close> are never empty; \<open>maps_url\<close> is the URL of the
  page, the sentinel, or the place link made absolute; \<open>email\<close> is non-empty unless the view
  has mailto links and all their addresses are empty; \<open>reviews_count\<close> is the sentinel when
  its text is absent and the integer when it parses, \<open>reviews_average\<close> likewise; and
  \<open>category\<close> is left empty for the job to assign. What a numeric field holds when its text
  does not parse is not part of the statement.
\<close>

theorem sentinel_totality_amended:
  assumes "extract_place ev pg = Inr p"
  shows "name p \<noteq> [] \<and> website p \<noteq> [] \<and> address p \<noteq> [] \<and> phone_number p \<noteq> []
    \<and> place_type p \<noteq> [] \<and> introduction p \<noteq> [] \<and> social_media_urls p \<noteq> []
    \<and> latitude p \<noteq> [] \<and> longitude p \<noteq> [] \<and> weekly_hours p \<noteq> [] \<and> tags p \<noteq> []
    \<and> (maps_url p = url pg \<or> maps_url p = sentinel
         \<or> (\<exists>href. link_el pg = Got (Some (Some href)) \<and> href \<noteq> []
               \<and> maps_url p = (if prefix ''http'' href then href
                                else ''https://www.google.com'' @ href)))
    \<and> (email p \<noteq> []
         \<or> (\<exists>hs. email_links pg = Got hs \<and> mailto_addresses hs \<noteq> []
               \<and> set (mailto_addresses hs) = {[]}))
    \<and> reviews_count p
        = (if extract_text (reviews_count_xpath pg) = [] then PyStr sentinel
           else case py_int (unicode_decimal ev) (clean_count (extract_text (reviews_count_xpath pg))) of
                  Some n \<Rightarrow> PyInt n
                | None \<Rightarrow> reviews_count p)
    \<and> reviews_average p
        = (if extract_text (reviews_average_xpath pg) = [] then PyStr sentinel
           else case py_float ev (py_replace '','' ''.''
                       (py_replace '' '' [] (extract_text (reviews_average_xpath pg)))) of
                  Some x \<Rightarrow> PyFloat x
                | None \<Rightarrow> reviews_average p)
    \<and> category p = []"
proof -
  from assms obtain site links
    where site: "extract_email_from_website ev (extract_text (website_xpath pg)) = Got site"
      and p: "p = build_place ev pg site links"
    by (auto simp: extract_place_Inr_iff)
  have text_fields: "name p \<noteq> [] \<and> website p \<noteq> [] \<and> address p \<noteq> [] \<and> phone_number p \<noteq> []
    \<and> place_type p \<noteq> [] \<and> introduction p \<noteq> [] \<and> social_media_urls p \<noteq> []
    \<and> latitude p \<noteq> [] \<and> longitude p \<noteq> [] \<and> weekly_hours p \<noteq> [] \<and> tags p \<noteq> []"
    by (simp add: p build_place_fields or_sentinel_nonempty sentinel_nonempty no_website_def
        extract_weekly_hours_nonempty extract_tags_nonempty)
  have m: "maps_url p = url pg \<or> maps_url p = sentinel
         \<or> (\<exists>href. link_el pg = Got (Some (Some href)) \<and> href \<noteq> []
               \<and> maps_url p = (if prefix ''http'' href then href
                                else ''https://www.google.com'' @ href))"
    using extract_maps_url_cases[of pg] by (simp add: p build_place_fields)
  have "site \<noteq> []" using site by (rule email_site_nonempty)
  then have e: "email p \<noteq> []
         \<or> (\<exists>hs. email_links pg = Got hs \<and> mailto_addresses hs \<noteq> []
               \<and> set (mailto_addresses hs) = {[]})"
    using extract_email_links_cases[of ev pg] by (auto simp: p build_place_fields)
  have c: "reviews_count p
        = (if extract_text (reviews_count_xpath pg) = [] then PyStr sentinel
           else case py_int (unicode_decimal ev) (clean_count (extract_text (reviews_count_xpath pg))) of
                  Some n \<Rightarrow> PyInt n
                | None \<Rightarrow> reviews_count p)"
    by (simp add: p build_place_fields parse_reviews_count_def split: option.splits)
  have a: "reviews_average p
        = (if extract_text (reviews_average_xpath pg) = [] then PyStr sentinel
           else case py_float ev (py_replace '','' ''.''
                       (py_replace '' '' [] (extract_text (reviews_average_xpath pg)))) of
                  Some x \<Rightarrow> PyFloat x
                | None \<Rightarrow> reviews_average p)"
    by (simp add: p build_place_fields parse_reviews_average_def split: option.splits)
  have g: "category p = []" by (simp add: p build_place_fields)
  from text_fields m e g show ?thesis by (intro conjI c a) simp_all
qed

lemma extract_place_rich_view: "extract_place with_ratings rich_view = Inr rich_place"
  by code_simp

lemma extract_place_bare_mailto_view:
  "extract_place offline bare_mailto_view
     = Inr (build_place offline bare_mailto_view sentinel [])"
  by (simp add: extract_place_def extract_email_from_website_def bare_mailto_view_def
      empty_view_def extract_text_def)

theorem sentinel_totality_amended_witness:
  "extract_place with_ratings rich_view = Inr rich_place
   \<and> extract_text (reviews_count_xpath rich_view) = ''(1,234)''
   \<and> reviews_count rich_place = PyInt 1234
   \<and> extract_text (reviews_average_xpath rich_view) = ''4,5''
   \<and> reviews_average rich_place = PyFloat (Double 4616752568008179712)
   \<and> name rich_place \<noteq> [] \<and> tags rich_place \<noteq> [] \<and> category rich_place = []
   \<and> email rich_place = ''hello@cafe-atlas.example''
   \<and> maps_url rich_place = ''https://www.google.com'' @ ''/maps/place/Cafe+Atlas''
   \<and> email (build_place offline bare_mailto_view sentinel []) = []
   \<and> name (build_place offline bare_mailto_view sentinel []) \<noteq> []
   \<and> email_links bare_mailto_view = Got [Some ''mailto:'']
   \<and> mailto_addresses [Some ''mailto:''] = [[]]"
proof -
  note rich = sentinel_totality_amended[OF extract_place_rich_view]
  note bare = sentinel_totality_amended[OF extract_place_bare_mailto_view]
  have t: "extract_text (reviews_count_xpath rich_view) = ''(1,234)''"
    "extract_text (reviews_average_xpath rich_view) = ''4,5''"
    by (simp_all add: rich_view_def extract_text_def)
  have pi: "py_int (unicode_decimal with_ratings) (clean_count ''(1,234)'') = Some 1234"
    by code_simp
  have "py_replace '','' ''.'' (py_replace '' '' [] ''4,5'') = ''4.5''"
    by code_simp
  then have pf: "py_float with_ratings (py_replace '','' ''.'' (py_replace '' '' [] ''4,5''))
      = Some (Double 4616752568008179712)"
    by (simp add: with_ratings_def)
  have "reviews_count rich_place
      = (if extract_text (reviews_count_xpath rich_view) = [] then PyStr sentinel
         else case py_int (unicode_decimal with_ratings)
                     (clean_count (extract_text (reviews_count_xpath rich_view))) of
                Some n \<Rightarrow> PyInt n
              | None \<Rightarrow> reviews_count rich_place)"
    using rich by (elim conjE)
  then have c: "reviews_count rich_place = PyInt 1234"
    unfolding t pi by simp
  have "reviews_average rich_place
      = (if extract_text (reviews_average_xpath rich_view) = [] then PyStr sentinel
         else case py_float with_ratings (py_replace '','' ''.''
                     (py_replace '' '' [] (extract_text (reviews_average_xpath rich_view)))) of
                Some x \<Rightarrow> PyFloat x
              | None \<Rightarrow> reviews_average rich_place)"
    using rich by (elim conjE)
  then have a: "reviews_average rich_place = PyFloat (Double 4616752568008179712)"
    unfolding t pf by simp
  have n1: "name rich_place \<noteq> []" using rich by (elim conjE)
  have n2: "tags rich_place \<noteq> []" using rich by (elim conjE)
  have n3: "category rich_place = []" using rich by (elim conjE)
  have v: "email rich_place = ''hello@cafe-atlas.example''"
    "maps_url rich_place = ''https://www.google.com'' @ ''/maps/place/Cafe+Atlas''"
    by (simp_all add: rich_place_def)
  have e: "email (build_place offline bare_mailto_view sentinel []) = []"
    by code_simp
  have nb: "name (build_place offline bare_mailto_view sentinel []) \<noteq> []"
    using bare by (elim conjE)
  have l: "email_links bare_mailto_view = Got [Some ''mailto:'']"
    by (simp add: bare_mailto_view_def)
  have ma: "mailto_addresses [Some ''mailto:''] = [[]]"
    by code_simp
  show ?thesis
    by (intro conjI extract_place_rich_view t c a n1 n2 n3 v e nb l ma)
qed

text \<open>
  C5: when the text of the website field is non-empty and contains a social-media domain,
  the Record has \<open>website = "No website"\<close>, and \<open>social_media_urls\<close> is the join by
  \<open>", "\<close> of the sorted list without duplicates of that value and of every social-media
  link of the detail pane; the moved value occurs in it.
\<close>

theorem social_website_separation:
  assumes "extract_place ev pg = Inr p"
    and "extract_text (website_xpath pg) \<noteq> []"
    and "is_social (extract_text (website_xpath pg))"
  shows "\<exists>links. all_links_in_details pg = Got links
    \<and> website p = no_website
    \<and> social_media_urls p
        = py_join '', '' (sorted_set (extract_text (website_xpath pg) # scan_links links {} []))
    \<and> set (sorted_set (extract_text (website_xpath pg) # scan_links links {} []))
        = insert (extract_text (website_xpath pg))
            {h. Got (Some h) \<in> set links \<and> h \<noteq> [] \<and> is_social h}
    \<and> sorted (sorted_set (extract_text (website_xpath pg) # scan_links links {} []))
    \<and> distinct (sorted_set (extract_text (website_xpath pg) # scan_links links {} []))
    \<and> py_in (extract_text (website_xpath pg)) (social_media_urls p)"
proof -
  let ?w = "extract_text (website_xpath pg)"
  from assms(1) obtain site links
    where links: "all_links_in_details pg = Got links" and p: "p = build_place ev pg site links"
    by (auto simp: extract_place_Inr_iff)
  let ?found = "?w # scan_links links {} []"
  have f: "scan_links links {} [?w] = ?found"
    using scan_links_append[of links "{}" "[?w]" "[]"] by simp
  have m: "?w \<in> set (sorted_set ?found)" by (simp add: sorted_set_set)
  then have ne: "py_join '', '' (sorted_set ?found) \<noteq> []"
    using assms(2) by (rule py_join_nonempty)
  have s: "social_media_urls p = py_join '', '' (sorted_set ?found)"
    using assms(2,3) ne by (simp add: p build_place_fields f or_sentinel_def)
  have "py_in ?w (social_media_urls p)"
    unfolding s py_in_sublist using m by (rule sublist_py_join)
  moreover have "website p = no_website"
    using assms(2,3) by (simp add: p build_place_fields)
  moreover have "set (sorted_set ?found)
      = insert ?w {h. Got (Some h) \<in> set links \<and> h \<noteq> [] \<and> is_social h}"
    by (simp add: sorted_set_set set_scan_links)
  ultimately show ?thesis
    using links s by (simp add: sorted_set_sorted sorted_set_distinct)
qed

lemma extract_place_facebook_view:
  "extract_place offline facebook_view = Inr (build_place offline facebook_view sentinel
     [Got (Some ''https://instagram.com/x''), Got (Some ''https://example.org''),
      Raised ''detached'', Got (Some ''https://facebook.com/x'')])"
  by (simp add: extract_place_def extract_email_from_website_def fetch_emails_def facebook_view_def
      empty_view_def extract_text_def offline_def sentinel_def no_website_def)

theorem social_website_separation_witness:
  "extract_text (website_xpath facebook_view) = ''https://facebook.com/x''
   \<and> is_social ''https://facebook.com/x''
   \<and> map_sum id (\<lambda>p. (website p, social_media_urls p)) (extract_place offline facebook_view)
       = Inr (''No website'', ''https://facebook.com/x, https://instagram.com/x'')
   \<and> py_in ''https://facebook.com/x'' ''https://facebook.com/x, https://instagram.com/x''"
proof -
  have w: "extract_text (website_xpath facebook_view) = ''https://facebook.com/x''"
    by (simp add: facebook_view_def empty_view_def extract_text_def)
  have s: "is_social ''https://facebook.com/x''"
    by code_simp
  have v: "map_sum id (\<lambda>p. (website p, social_media_urls p)) (extract_place offline facebook_view)
       = Inr (''No website'', ''https://facebook.com/x, https://instagram.com/x'')"
    by code_simp
  have ne: "extract_text (website_xpath facebook_view) \<noteq> []" by (simp add: w)
  from social_website_separation[OF extract_place_facebook_view ne] s w v
  show ?thesis by (auto simp: extract_place_facebook_view)
qed

section \<open>The review count\<close>

lemma reviews_count_parsed:
  "all_links_in_details pg = Got links \<Longrightarrow>
   map_sum id reviews_count (extract_place ev (pg\<lparr>reviews_count_xpath := Got (Some ''(1,234)'')\<rparr>))
     = Inr (PyInt 1234)"
proof -
  assume l: "all_links_in_details pg = Got links"
  have c: "clean_count ''(1,234)'' = ''1234''" by code_simp
  have i: "py_int dec ''1234'' = Some 1234" for dec by code_simp
  let ?pg = "pg\<lparr>reviews_count_xpath := Got (Some ''(1,234)'')\<rparr>"
  from l have "all_links_in_details ?pg = Got links" by simp
  from extract_place_total[OF this, of ev] obtain site
    where "extract_place ev ?pg = Inr (build_place ev ?pg site links)" by blast
  then show ?thesis
    by (simp add: build_place_fields parse_reviews_count_def extract_text_def c i)
qed

lemma reviews_count_unparsable:
  "all_links_in_details pg = Got links \<Longrightarrow>
   map_sum id reviews_count (extract_place ev (pg\<lparr>reviews_count_xpath := Got (Some ''N/A'')\<rparr>))
     = Inr PyNone"
proof -
  assume l: "all_links_in_details pg = Got links"
  have c: "clean_count ''N/A'' = ''N/A''" by code_simp
  have i: "py_int dec ''N/A'' = None" for dec by code_simp
  let ?pg = "pg\<lparr>reviews_count_xpath := Got (Some ''N/A'')\<rparr>"
  from l have "all_links_in_details ?pg = Got links" by simp
  from extract_place_total[OF this, of ev] obtain site
    where "extract_place ev ?pg = Inr (build_place ev ?pg site links)" by blast
  then show ?thesis
    by (simp add: build_place_fields parse_reviews_count_def extract_text_def c i)
qed

text \<open>
  C6: the count text \<open>(1,234)\<close> gives 1234 (\<open>reviews_count_parsed\<close>) and no exception
  leaves \<open>extract_place\<close> because of the text, but for the text \<open>N/A\<close> the field is not the
  sentinel: it keeps the \<open>None\<close> of the dataclass default. Only a missing text gives the
  sentinel.
\<close>

theorem reviews_count_na_is_none:
  "map_sum id reviews_count
     (extract_place offline (empty_view\<lparr>reviews_count_xpath := Got (Some ''N/A'')\<rparr>)) = Inr PyNone
   \<and> map_sum id reviews_count
     (extract_place offline (empty_view\<lparr>reviews_count_xpath := Got None\<rparr>)) = Inr (PyStr sentinel)"
  by code_simp

section \<open>The email fetch\<close>

text \<open>
  C8: \<open>extract_email_from_website\<close> always returns. Its value is the sentinel when the GET
  raises (a timeout included), when the status is not 200 and when nothing in the body
  matches; otherwise it is the matched addresses, each once, joined by \<open>", "\<close>.
\<close>


theorem email_fetch_absorbed:
  "extract_email_from_website ev website_url =
     Got (case requests_get ev website_url of
            Raised e \<Rightarrow> sentinel
          | Got (status_code, body) \<Rightarrow>
              if website_url \<noteq> [] \<and> website_url \<noteq> no_website \<and> website_url \<noteq> sentinel
                 \<and> status_code = 200 \<and> findall_email (unicode_alnum ev) body \<noteq> []
              then py_join '', '' (set_iter (str_hash ev) (findall_email (unicode_alnum ev) body))
              else sentinel)
   \<and> distinct (set_iter (str_hash ev) (findall_email (unicode_alnum ev) body'))
   \<and> set (set_iter (str_hash ev) (findall_email (unicode_alnum ev) body'))
       = set (findall_email (unicode_alnum ev) body')"
  by (simp add: extract_email_from_website_def fetch_emails_def Let_def set_iter_set set_iter_distinct
      split: attempt.splits prod.splits)

theorem email_fetch_absorbed_witness:
  "extract_email_from_website contact_site ''http://shop.example''
     = Got ''info@shop.example, sales@shop.example.''
   \<and> extract_email_from_website contact_site ''http://societe.example''
     = Got (''contact@soci'' @ e_acute @ ''t'' @ e_acute @ ''.fr, Jos'' @ e_acute @ ''@example.com'')
   \<and> extract_email_from_website contact_site ''http://gone.example'' = Got sentinel
   \<and> extract_email_from_website contact_site ''http://slow.example'' = Got sentinel"
proof -
  have v: "extract_email_from_website contact_site ''http://shop.example''
     = Got ''info@shop.example, sales@shop.example.''"
    by code_simp
  have w: "extract_email_from_website contact_site ''http://societe.example''
     = Got (''contact@soci'' @ e_acute @ ''t'' @ e_acute @ ''.fr, Jos'' @ e_acute @ ''@example.com'')"
    by code_simp
  show ?thesis
    using email_fetch_absorbed[of contact_site "''http://gone.example''"]
      email_fetch_absorbed[of contact_site "''http://slow.example''"] v w
    by (simp add: contact_site_def offline_def sentinel_def no_website_def)
qed

section \<open>The opening hours\<close>

lemma opens_at_frame:
  "extract_maps_url (pg\<lparr>opens_at_xpath := a, opens_at_xpath2 := b\<rparr>) = extract_maps_url pg"
  "extract_email_links ev (pg\<lparr>opens_at_xpath := a, opens_at_xpath2 := b\<rparr>) = extract_email_links ev pg"
  "extract_weekly_hours (pg\<lparr>opens_at_xpath := a, opens_at_xpath2 := b\<rparr>) = extract_weekly_hours pg"
  "extract_tags (pg\<lparr>opens_at_xpath := a, opens_at_xpath2 := b\<rparr>) = extract_tags pg"
  by (simp_all add: extract_maps_url_def extract_email_links_def extract_weekly_hours_def
      extract_tags_def split: attempt.splits option.splits)

lemma asdict_build_place_frame:
  "asdict (build_place ev (pg\<lparr>opens_at_xpath := a, opens_at_xpath2 := b\<rparr>) site links)
   = asdict (build_place ev pg site links)"
  by (simp add: asdict_def build_place_fields opens_at_frame)

lemma asdict_no_worktime: "map_of (asdict p) ''worktime'' = None"
  by (simp add: asdict_def)

text \<open>
  C10: the open and close times that \<open>extract_place\<close> computes are stored only under the
  name \<open>worktime\<close> among the attributes added to the instance, which is no declared field:
  whatever the two opening-hours selectors find, the declared fields of the Record are the
  same, and \<open>weekly_hours\<close> is what the hours table gives.
\<close>

theorem worktime_frame:
  "map_sum id asdict (extract_place ev (pg\<lparr>opens_at_xpath := a, opens_at_xpath2 := b\<rparr>))
     = map_sum id asdict (extract_place ev pg)
   \<and> map_sum id instance_attrs (extract_place ev pg)
     = map_sum id (\<lambda>p. [(''worktime'', extract_worktime pg)]) (extract_place ev pg)
   \<and> map_sum id weekly_hours (extract_place ev pg)
     = map_sum id (\<lambda>p. extract_weekly_hours pg) (extract_place ev pg)
   \<and> map_of (asdict p) ''worktime'' = None"
  by (simp add: extract_place_def asdict_build_place_frame build_place_fields asdict_no_worktime
      split: attempt.splits)

theorem worktime_frame_witness:
  "map_sum id (\<lambda>p. (instance_attrs p, weekly_hours p)) (extract_place offline hours_view)
     = Inr ([(''worktime'', ''Open, Closes 5 PM'')], ''Monday: 9 AM-5 PM; Sunday: Closed'')
   \<and> map_sum id asdict (extract_place offline hours_view)
     = map_sum id asdict (extract_place offline
         (empty_view\<lparr>weekly_hours_xpath := Got (Some [[''Monday'', ''9 AM-5 PM''], [''Sunday'', ''Closed'']])\<rparr>))"
proof -
  have v: "map_sum id (\<lambda>p. (instance_attrs p, weekly_hours p)) (extract_place offline hours_view)
     = Inr ([(''worktime'', ''Open, Closes 5 PM'')], ''Monday: 9 AM-5 PM; Sunday: Closed'')"
    by code_simp
  have e: "hours_view = (empty_view\<lparr>weekly_hours_xpath := Got (Some [[''Monday'', ''9 AM-5 PM''], [''Sunday'', ''Closed'']])\<rparr>)
      \<lparr>opens_at_xpath := Got (Some (''Open '' @ dot_operator @ '' Closes 5 PM'')), opens_at_xpath2 := Got None\<rparr>"
    by (simp add: hours_view_def empty_view_def)
  show ?thesis
    using v worktime_frame[where ev = offline
        and pg = "empty_view\<lparr>weekly_hours_xpath := Got (Some [[''Monday'', ''9 AM-5 PM''], [''Sunday'', ''Closed'']])\<rparr>"
        and a = "Got (Some (''Open '' @ dot_operator @ '' Closes 5 PM''))" and b = "Got None"]
    unfolding e[symmetric] by simp
qed

section \<open>The walk\<close>

lemma place_key_eq: "place_key = (\<lambda>q. (py_strip (name q), py_strip (address q)))"
  by (rule ext) (simp add: place_key_def)

lemma first_wins_append: "first_wins kept (xs @ ys) = first_wins (first_wins kept xs) ys"
  by (induction xs arbitrary: kept) auto

lemma first_wins_distinct:
  "distinct (map place_key kept) \<Longrightarrow> distinct (map place_key (first_wins kept xs))"
  by (induction xs arbitrary: kept) (auto simp: place_key_eq)

lemma first_wins_first:
  "p \<in> set (first_wins kept xs) \<Longrightarrow>
   p \<in> set kept \<or> (place_key p \<notin> place_key ` set kept \<and> find (\<lambda>q. place_key q = place_key p) xs = Some p)"
proof (induction xs arbitrary: kept)
  case Nil
  then show ?case by simp
next
  case (Cons x xs)
  show ?case
  proof (cases "place_key x \<in> place_key ` set kept")
    case True
    with Cons.prems have "p \<in> set (first_wins kept xs)" by (simp add: place_key_eq)
    from Cons.IH[OF this] True show ?thesis by auto
  next
    case False
    with Cons.prems have "p \<in> set (first_wins (kept @ [x]) xs)" by (simp add: place_key_eq)
    from Cons.IH[OF this] False show ?thesis by auto
  qed
qed

lemma extract_place_name: "extract_place ev pg = Inr p \<Longrightarrow> name p \<noteq> []"
  by (auto simp: extract_place_Inr_iff build_place_fields or_sentinel_nonempty)

lemma add_place_first_wins:
  "walk_inv st \<Longrightarrow> name p \<noteq> [] \<Longrightarrow>
   places (add_place p st) = first_wins (places st) [p] \<and> walk_inv (add_place p st)"
proof -
  assume i: "walk_inv st" and n: "name p \<noteq> []"
  have k: "(py_strip (name p), py_strip (address p))
        \<in> (\<lambda>q. (py_strip (name q), py_strip (address q))) ` set (places st)
      \<longleftrightarrow> place_key p |\<in>| unique_keys st"
    using i by (simp add: walk_inv_def place_key_eq)
  show ?thesis
    using i n by (auto simp: add_place_def walk_inv_def k)
qed

lemma log_failure_frame:
  "places (log_failure i e st) = places st" "unique_keys (log_failure i e st) = unique_keys st"
  "walk_inv (log_failure i e st) = walk_inv st"
  by (simp_all add: log_failure_def walk_inv_def)

lemma process_listings_first_wins:
  "walk_inv st \<Longrightarrow>
   \<exists>k. places (process_listings ev total_n idx listings st)
          = first_wins (places st) (take k (extracted ev listings))
       \<and> walk_inv (process_listings ev total_n idx listings st)
       \<and> (int (length (places (process_listings ev total_n idx listings st))) < total_n
            \<longrightarrow> k \<ge> length (extracted ev listings))"
proof (induction ev total_n idx listings st rule: process_listings.induct)
  case (1 ev total_n idx st)
  then show ?case by (simp add: extracted_def)
next
  case (2 ev total_n idx e listings st)
  from 2(1)[OF 2(2)[folded log_failure_frame(3)[of idx e st]]]
  show ?case by (simp add: extracted_def log_failure_frame)
next
  case (3 ev total_n idx pg listings st)
  show ?case
  proof (cases "extract_place ev pg")
    case (Inl e)
    have "walk_inv (log_failure idx e st)" using 3(3) by (simp add: log_failure_frame)
    from 3(1)[OF Inl this] Inl show ?thesis by (simp add: extracted_def log_failure_frame)
  next
    case (Inr p)
    have ex: "extracted ev (Got pg # listings) = p # extracted ev listings"
      using Inr by (simp add: extracted_def)
    from add_place_first_wins[OF 3(3) extract_place_name[OF Inr]]
    have a: "places (add_place p st) = first_wins (places st) [p]" and i: "walk_inv (add_place p st)"
      by auto
    show ?thesis
    proof (cases "total_n \<le> int (length (places (add_place p st)))")
      case True
      then have "process_listings ev total_n idx (Got pg # listings) st = add_place p st"
        using Inr by simp
      then show ?thesis using a i True
        by (intro exI[of _ 1]) (simp add: ex)
    next
      case False
      then have r: "process_listings ev total_n idx (Got pg # listings) st
          = process_listings ev total_n (Suc idx) listings (add_place p st)"
        using Inr by simp
      from 3(2)[OF Inr False i] obtain k where
        k: "places (process_listings ev total_n (Suc idx) listings (add_place p st))
              = first_wins (places (add_place p st)) (take k (extracted ev listings))"
        "walk_inv (process_listings ev total_n (Suc idx) listings (add_place p st))"
        "int (length (places (process_listings ev total_n (Suc idx) listings (add_place p st)))) < total_n
            \<longrightarrow> k \<ge> length (extracted ev listings)"
        by blast
      have "first_wins (places (add_place p st)) (take k (extracted ev listings))
          = first_wins (places st) (take (Suc k) (p # extracted ev listings))"
        unfolding a using first_wins_append[of "places st" "[p]" "take k (extracted ev listings)"]
        by simp
      with k show ?thesis unfolding r ex
        by (intro exI[of _ "Suc k"]) auto
    qed
  qed
qed


lemma extracted_upto_Suc:
  "extracted_upto ev feed (Suc n) = extracted_upto ev feed n @ extracted ev (cycle_listings feed n)"
  by (simp add: extracted_upto_def)

lemma scroll_loop_first_wins:
  "walk_inv st \<Longrightarrow> places st = first_wins [] (extracted_upto ev feed cycle) \<Longrightarrow>
   scroll_loop ev feed total_n cycle sa lst st = Inr st' \<Longrightarrow>
   \<exists>n k. places st' = first_wins [] (take k (extracted_upto ev feed n))"
proof (induction ev feed total_n cycle sa lst st rule: scroll_loop.induct)
  case (1 ev feed total_n cycle sa lst st)
  from "1.prems"(3) obtain listings where f: "feed cycle = Got listings"
    by (cases "feed cycle") (simp_all add: scroll_loop.simps[of ev feed total_n cycle])
  let ?st = "process_listings ev total_n 0 listings st"
  from process_listings_first_wins[OF "1.prems"(1), of ev total_n 0 listings] obtain k where
    k: "places ?st = first_wins (places st) (take k (extracted ev listings))"
    and i: "walk_inv ?st"
    and full: "int (length (places ?st)) < total_n \<longrightarrow> k \<ge> length (extracted ev listings)"
    by blast
  have cl: "cycle_listings feed cycle = listings" by (simp add: cycle_listings_def f)
  have pre: "places ?st = first_wins []
      (take (length (extracted_upto ev feed cycle) + k) (extracted_upto ev feed (Suc cycle)))"
    unfolding k "1.prems"(2) extracted_upto_Suc cl by (simp add: first_wins_append)
  show ?case
  proof (cases "total_n \<le> int (length (places ?st))
      \<or> max_scroll_attempts \<le> next_attempts sa lst ?st")
    case True
    then have "scroll_loop ev feed total_n cycle sa lst st = Inr ?st"
      by (auto simp: scroll_loop.simps[of ev feed total_n cycle] f)
    with "1.prems"(3) have "st' = ?st" by simp
    with pre show ?thesis by blast
  next
    case False
    then have r: "scroll_loop ev feed total_n cycle sa lst st
        = scroll_loop ev feed total_n (Suc cycle) (next_attempts sa lst ?st)
            (fcard (unique_keys ?st)) ?st"
      by (auto simp: scroll_loop.simps[of ev feed total_n cycle] f)
    from False full have "k \<ge> length (extracted ev listings)" by simp
    then have all: "places ?st = first_wins [] (extracted_upto ev feed (Suc cycle))"
      unfolding pre by (simp add: extracted_upto_Suc cl)
    from False have c1: "\<not> total_n \<le> int (length (places ?st))"
      and c2: "\<not> max_scroll_attempts \<le> next_attempts sa lst ?st" by auto
    from "1.IH"[OF f c1 c2 i all] "1.prems"(3) r show ?thesis by simp
  qed
qed

text \<open>
  C1: the list that the walk returns has no two Records with the same pair of trimmed name
  and trimmed address; it is what keeping the first Record of every key leaves of the
  Records extracted, in order, up to the point where the walk stopped, so that each Record
  of the list is the first one extracted with its key.
\<close>

theorem walk_deduplicates:
  assumes "snd (scrape_places_with_browser ev b total_n errs) = Inr st"
  shows "distinct (map (\<lambda>p. (py_strip (name p), py_strip (address p))) (places st))
    \<and> (\<exists>n k. places st = first_wins [] (take k (extracted_upto ev (scroll_feed b) n))
          \<and> (\<forall>p \<in> set (places st).
                find (\<lambda>q. (py_strip (name q), py_strip (address q))
                            = (py_strip (name p), py_strip (address p)))
                  (take k (extracted_upto ev (scroll_feed b) n))
                  = Some p))"
proof -
  let ?st0 = "\<lparr>places = [], unique_keys = {||}, errors = errs\<rparr>"
  from assms have run: "scroll_loop ev (scroll_feed b) total_n 0 0 0 ?st0 = Inr st"
    by (auto simp: scrape_places_with_browser_def split: attempt.splits)
  have i: "walk_inv ?st0" by (simp add: walk_inv_def)
  have e: "places ?st0 = first_wins [] (extracted_upto ev (scroll_feed b) 0)"
    by (simp add: extracted_upto_def)
  from scroll_loop_first_wins[OF i e run] obtain n k
    where nk: "places st = first_wins [] (take k (extracted_upto ev (scroll_feed b) n))" by blast
  have d: "distinct (map place_key (places st))"
    unfolding nk by (rule first_wins_distinct) simp
  have f: "\<forall>p \<in> set (places st).
      find (\<lambda>q. place_key q = place_key p) (take k (extracted_upto ev (scroll_feed b) n)) = Some p"
    unfolding nk using first_wins_first[of _ "[]"] by auto
  from d f nk show ?thesis unfolding place_key_eq by blast
qed

lemma add_place_length:
  "length (places (add_place p st)) \<le> Suc (length (places st))"
  "length (places st) \<le> length (places (add_place p st))"
  by (simp_all add: add_place_def)

lemma process_listings_length:
  "int (length (places st)) < max total_n 1 \<Longrightarrow>
   int (length (places (process_listings ev total_n idx listings st))) \<le> max total_n 1"
proof (induction ev total_n idx listings st rule: process_listings.induct)
  case (1 ev total_n idx st)
  then show ?case by simp
next
  case (2 ev total_n idx e listings st)
  then show ?case by (simp add: log_failure_frame)
next
  case (3 ev total_n idx pg listings st)
  show ?case
  proof (cases "extract_place ev pg")
    case (Inl e)
    with 3 show ?thesis by (simp add: log_failure_frame)
  next
    case (Inr p)
    show ?thesis
    proof (cases "total_n \<le> int (length (places (add_place p st)))")
      case True
      with Inr "3.prems" add_place_length(1)[of p st] show ?thesis by simp
    next
      case False
      then have "int (length (places (add_place p st))) < max total_n 1" by simp
      from "3.IH"(2)[OF Inr False this] Inr False show ?thesis by simp
    qed
  qed
qed

lemma scroll_loop_length:
  "int (length (places st)) < max total_n 1 \<Longrightarrow>
   scroll_loop ev feed total_n cycle sa lst st = Inr st' \<Longrightarrow>
   int (length (places st')) \<le> max total_n 1"
proof (induction ev feed total_n cycle sa lst st rule: scroll_loop.induct)
  case (1 ev feed total_n cycle sa lst st)
  from "1.prems"(2) obtain listings where f: "feed cycle = Got listings"
    by (cases "feed cycle") (simp_all add: scroll_loop.simps[of ev feed total_n cycle])
  let ?st = "process_listings ev total_n 0 listings st"
  have b: "int (length (places ?st)) \<le> max total_n 1"
    using "1.prems"(1) by (rule process_listings_length)
  show ?case
  proof (cases "total_n \<le> int (length (places ?st))
      \<or> max_scroll_attempts \<le> next_attempts sa lst ?st")
    case True
    then have "scroll_loop ev feed total_n cycle sa lst st = Inr ?st"
      by (auto simp: scroll_loop.simps[of ev feed total_n cycle] f)
    with "1.prems"(2) b show ?thesis by simp
  next
    case False
    then have r: "scroll_loop ev feed total_n cycle sa lst st
        = scroll_loop ev feed total_n (Suc cycle) (next_attempts sa lst ?st)
            (fcard (unique_keys ?st)) ?st"
      by (auto simp: scroll_loop.simps[of ev feed total_n cycle] f)
    from False have c1: "\<not> total_n \<le> int (length (places ?st))"
      and c2: "\<not> max_scroll_attempts \<le> next_attempts sa lst ?st" by auto
    from c1 have "int (length (places ?st)) < max total_n 1" by simp
    from "1.IH"[OF f c1 c2 this] "1.prems"(2) r show ?thesis by simp
  qed
qed

lemma walk_length_bound:
  assumes "snd (scrape_places_with_browser ev b total_n errs) = Inr st"
  shows "int (length (places st)) \<le> max total_n 1"
proof -
  from assms have "scroll_loop ev (scroll_feed b) total_n 0 0 0
      \<lparr>places = [], unique_keys = {||}, errors = errs\<rparr> = Inr st"
    by (auto simp: scrape_places_with_browser_def split: attempt.splits)
  then show ?thesis by (intro scroll_loop_length[of _ total_n]) simp_all
qed

theorem walk_deduplicates_witness:
  "map_sum id (\<lambda>st. map (\<lambda>p. (name p, address p, phone_number p)) (places st))
       (snd (scrape_places_with_browser offline main_street 3 []))
     = Inr [(''Cafe Atlas'', ''1 Main St'', sentinel), (''Cafe Atlas'', ''9 High St'', sentinel),
            (''Bakery'', ''2 Main St'', sentinel)]
   \<and> distinct (map (\<lambda>p. (py_strip (name p), py_strip (address p)))
        (places (projr (snd (scrape_places_with_browser offline main_street 3 [])))))"
proof -
  have v: "map_sum id (\<lambda>st. map (\<lambda>p. (name p, address p, phone_number p)) (places st))
       (snd (scrape_places_with_browser offline main_street 3 []))
     = Inr [(''Cafe Atlas'', ''1 Main St'', sentinel), (''Cafe Atlas'', ''9 High St'', sentinel),
            (''Bakery'', ''2 Main St'', sentinel)]"
    by code_simp
  then have "snd (scrape_places_with_browser offline main_street 3 [])
      = Inr (projr (snd (scrape_places_with_browser offline main_street 3 [])))"
    by (cases "snd (scrape_places_with_browser offline main_street 3 [])") simp_all
  from walk_deduplicates[OF this] v show ?thesis by simp
qed

lemma process_listings_growth:
  "length (places (process_listings ev total_n i ls s)) + fcard (unique_keys s)
      = length (places s) + fcard (unique_keys (process_listings ev total_n i ls s))
   \<and> fcard (unique_keys s) \<le> fcard (unique_keys (process_listings ev total_n i ls s))"
proof (induction ev total_n i ls s rule: process_listings.induct)
  case (1 ev total_n idx st)
  then show ?case by simp
next
  case (2 ev total_n idx e listings st)
  then show ?case by (simp add: log_failure_def)
next
  case (3 ev total_n idx pg listings st)
  have add: "length (places (add_place q st)) + fcard (unique_keys st)
      = length (places st) + fcard (unique_keys (add_place q st))
      \<and> fcard (unique_keys st) \<le> fcard (unique_keys (add_place q st))" for q
    by (simp add: add_place_def fcard_finsert_disjoint)
  show ?case
  proof (cases "extract_place ev pg")
    case (Inl e)
    with 3 show ?thesis by (simp add: log_failure_def)
  next
    case (Inr q)
    show ?thesis
    proof (cases "total_n \<le> int (length (places (add_place q st)))")
      case True
      with Inr show ?thesis using add[of q] by simp
    next
      case False
      with Inr "3.IH"(2)[of q] show ?thesis using add[of q] by simp
    qed
  qed
qed

lemma scroll_loop_cycles:
  "(\<forall>n. cycle \<le> n \<and> n < cycle + cycles_left total_n sa lst st \<longrightarrow> feed' n = feed n) \<Longrightarrow>
   scroll_loop ev feed' total_n cycle sa lst st = scroll_loop ev feed total_n cycle sa lst st"
proof (induction ev feed total_n cycle sa lst st rule: scroll_loop.induct)
  case (1 ev feed total_n cycle sa lst st)
  have pos: "0 < cycles_left total_n sa lst st" by (auto simp: cycles_left_def max_def)
  with "1.prems" have same: "feed' cycle = feed cycle" by simp
  show ?case
  proof (cases "feed cycle")
    case (Raised e)
    with same show ?thesis
      by (simp add: scroll_loop.simps[of ev feed total_n cycle] scroll_loop.simps[of ev feed' total_n cycle])
  next
    case (Got listings)
    let ?st = "process_listings ev total_n 0 listings st"
    show ?thesis
    proof (cases "total_n \<le> int (length (places ?st))
        \<or> max_scroll_attempts \<le> next_attempts sa lst ?st")
      case True
      with same Got show ?thesis
        by (auto simp: scroll_loop.simps[of ev feed total_n cycle]
            scroll_loop.simps[of ev feed' total_n cycle])
    next
      case False
      then have c1: "\<not> total_n \<le> int (length (places ?st))"
        and c2: "\<not> max_scroll_attempts \<le> next_attempts sa lst ?st" by auto
      from process_listings_growth[of ev total_n 0 listings st]
      have g: "length (places ?st) + fcard (unique_keys st)
          = length (places st) + fcard (unique_keys ?st)"
        and m: "fcard (unique_keys st) \<le> fcard (unique_keys ?st)" by simp_all
      have less: "Suc (cycles_left total_n (next_attempts sa lst ?st) (fcard (unique_keys ?st)) ?st)
          \<le> cycles_left total_n sa lst st"
        using c1 c2 g m
        by (auto simp: cycles_left_def next_attempts_def max_scroll_attempts_def split: if_splits)
      have "\<forall>n. Suc cycle \<le> n
          \<and> n < Suc cycle + cycles_left total_n (next_attempts sa lst ?st) (fcard (unique_keys ?st)) ?st
          \<longrightarrow> feed' n = feed n"
        using "1.prems" less by auto
      from "1.IH"[OF Got c1 c2 this] same Got c1 c2 show ?thesis
        by (simp add: scroll_loop.simps[of ev feed total_n cycle]
            scroll_loop.simps[of ev feed' total_n cycle])
    qed
  qed
qed

lemma scroll_loop_normal:
  "\<forall>n. \<not> (\<exists>e. feed n = Raised e) \<Longrightarrow> \<not> isl (scroll_loop ev feed total_n cycle sa lst st)"
proof (induction ev feed total_n cycle sa lst st rule: scroll_loop.induct)
  case (1 ev feed total_n cycle sa lst st)
  from "1.prems" obtain listings where f: "feed cycle = Got listings"
    by (cases "feed cycle") auto
  let ?st = "process_listings ev total_n 0 listings st"
  show ?case
  proof (cases "total_n \<le> int (length (places ?st))
      \<or> max_scroll_attempts \<le> next_attempts sa lst ?st")
    case True
    with f show ?thesis by (auto simp: scroll_loop.simps[of ev feed total_n cycle])
  next
    case False
    then have c1: "\<not> total_n \<le> int (length (places ?st))"
      and c2: "\<not> max_scroll_attempts \<le> next_attempts sa lst ?st" by auto
    from "1.IH"[OF f c1 c2 "1.prems"] f c1 c2 show ?thesis
      by (simp add: scroll_loop.simps[of ev feed total_n cycle])
  qed
qed

lemma walk_cycles_bound:
  "\<forall>n < nat (max 1 (10 * total_n)). scroll_feed b' n = scroll_feed b n \<Longrightarrow>
   new_page_result b' = new_page_result b \<Longrightarrow> search_result b' = search_result b \<Longrightarrow>
   scrape_places_with_browser ev b' total_n errs = scrape_places_with_browser ev b total_n errs"
proof -
  assume a: "\<forall>n < nat (max 1 (10 * total_n)). scroll_feed b' n = scroll_feed b n"
    and n: "new_page_result b' = new_page_result b" and s: "search_result b' = search_result b"
  let ?st0 = "\<lparr>places = [], unique_keys = {||}, errors = errs\<rparr>"
  have "cycles_left total_n 0 0 ?st0 = nat (max 1 (10 * total_n))"
    by (auto simp: cycles_left_def)
  with a have "\<forall>n. 0 \<le> n \<and> n < 0 + cycles_left total_n 0 0 ?st0
      \<longrightarrow> scroll_feed b' n = scroll_feed b n" by simp
  from scroll_loop_cycles[OF this, of ev]
  show ?thesis by (simp add: scrape_places_with_browser_def n s split: attempt.splits)
qed

text \<open>
  C2: the walk always ends: \<open>scroll_loop\<close> is total, it reads at most
  \<open>max 1 (10 * total)\<close> scroll cycles (\<open>walk_cycles_bound\<close>), and ten cycles in a row
  without a new key end it with a normal result (\<open>scroll_loop_normal\<close>,
  \<open>walk_exhausted_feed\<close>). For a target of at least 1 the list is never longer than the
  target (\<open>walk_length_bound\<close>). For the target 0 it is: the first Record extracted is
  appended before the length is compared with the target.
\<close>

theorem walk_zero_target_returns_one:
  "map_sum id length (snd (scrape_places offline (Got small_town) 0 None)) = Inr 1"
  by code_simp

lemma walk_exhausted_feed:
  "map_sum id (\<lambda>ps. map name ps) (snd (scrape_places offline (Got small_town) 5 None))
     = Inr [''Cafe Atlas'', ''Bakery'']"
  by code_simp

section \<open>Browser sessions\<close>




lemma after_events_append: "after_events (xs @ ys) r = after_events ys (after_events xs r)"
  by (simp add: after_events_def)

lemma after_write_errors: "after_events (write_errors errs) r = r"
  by (simp add: after_events_def write_errors_def)



section \<open>The jobs\<close>

lemma scrape_job_Inr:
  "snd (scrape_job ev total_n launch job) = Inr (loc, ps) \<Longrightarrow>
   loc = snd job \<and> (\<forall>p \<in> set ps. category p = fst job)"
  by (auto simp: scrape_job_def split: prod.splits attempt.splits sum.splits)

lemma scrape_job_Inr_places:
  "snd (scrape_job ev total_n launch job) = Inr r \<Longrightarrow>
   r = (snd job, job_places ev total_n launch job)"
proof -
  assume a: "snd (scrape_job ev total_n launch job) = Inr r"
  obtain loc ps where r: "r = (loc, ps)" by (cases r)
  from scrape_job_Inr[OF a[unfolded r]] a r show ?thesis by (simp add: job_places_def)
qed

lemma job_places_category: "p \<in> set (job_places ev total_n launch job) \<Longrightarrow> category p = fst job"
proof -
  assume p: "p \<in> set (job_places ev total_n launch job)"
  show ?thesis
  proof (cases "snd (scrape_job ev total_n launch job)")
    case (Inl e)
    with p show ?thesis by (simp add: job_places_def)
  next
    case (Inr r)
    obtain loc ps where r: "r = (loc, ps)" by (cases r)
    from scrape_job_Inr[OF Inr[unfolded r]] p Inr r show ?thesis by (simp add: job_places_def)
  qed
qed

lemma executor_results_isl: "isl (executor_results rs) \<longleftrightarrow> (\<exists>r \<in> set rs. isl r)"
  by (induction rs rule: executor_results.induct) (auto split: sum.splits)

lemma executor_results_Inr: "executor_results rs = Inr xs \<Longrightarrow> rs = map Inr xs"
  by (induction rs arbitrary: xs rule: executor_results.induct) (auto split: sum.splits)

lemma executor_results_first:
  "i < length rs \<Longrightarrow> rs ! i = Inl e \<Longrightarrow> \<forall>j<i. \<not> isl (rs ! j) \<Longrightarrow> executor_results rs = Inl e"
proof (induction rs arbitrary: i rule: executor_results.induct)
  case 1
  then show ?case by simp
next
  case (2 e' rs)
  then show ?case by (cases i) auto
next
  case (3 x rs)
  from 3(2,3) obtain k where k: "i = Suc k" by (cases i) auto
  with 3 have "executor_results rs = Inl e" by force
  then show ?case by simp
qed

lemma merge_results_map_of:
  "map_of (merge_results rs d) loc =
     (if loc \<in> fst ` set rs \<or> loc \<in> dom (map_of d)
      then Some ((case map_of d loc of None \<Rightarrow> [] | Some old \<Rightarrow> old)
                 @ concat (map snd (filter (\<lambda>r. fst r = loc) rs)))
      else None)"
proof (induction rs d rule: merge_results.induct)
  case (1 d)
  then show ?case by (auto split: option.splits)
next
  case (2 l ps rs d)
  show ?case
    unfolding merge_results.simps "2.IH" AList.update_conv'
    by (auto split: option.splits)
qed

lemma merge_results_keys:
  "distinct (map fst d) \<Longrightarrow>
   distinct (map fst (merge_results rs d))
   \<and> fst ` set (merge_results rs d) = fst ` set d \<union> fst ` set rs"
proof (induction rs d rule: merge_results.induct)
  case (1 d)
  then show ?case by simp
next
  case (2 l ps rs d)
  from "2.IH"[OF AList.distinct_update[OF "2.prems"]]
  show ?case by (auto simp: AList.dom_update)
qed


lemma job_results_nth:
  "i < length jobs \<Longrightarrow>
   job_results ev total_n launches jobs ! i = snd (scrape_job ev total_n (launches i) (jobs ! i))"
  by (simp add: job_results_def nth_enumerate_eq)

lemma run_jobs_eq:
  "run_jobs ev total_n launches jobs =
     (if jobs = [] then Inl ''max_workers must be greater than 0''
      else case executor_results (job_results ev total_n launches jobs) of
             Inl e \<Rightarrow> Inl e
           | Inr results \<Rightarrow> Inr (merge_results results []))"
proof (cases "length jobs = 1")
  case True
  then obtain job where j: "jobs = [job]" by (cases jobs) auto
  show ?thesis
    by (cases "snd (scrape_job ev total_n (launches 0) job)")
       (auto simp: run_jobs_def j job_results_def)
next
  case False
  then show ?thesis by (simp add: run_jobs_def job_results_def)
qed

text \<open>
  C9: when the jobs produce a merged result, its keys are the locations of the jobs, each
  once; every location maps to the concatenation, in job order, of the places of the jobs
  with that location; and every place of a job carries the category of that job.
\<close>

theorem jobs_merged_by_location:
  assumes "run_jobs ev total_n launches jobs = Inr location_results"
  shows "distinct (map fst location_results)
    \<and> fst ` set location_results = snd ` set jobs
    \<and> (\<forall>loc \<in> snd ` set jobs. map_of location_results loc
          = Some (concat (map (\<lambda>(i, job). job_places ev total_n (launches i) job)
                    (filter (\<lambda>(i, job). snd job = loc) (enumerate 0 jobs)))))
    \<and> (\<forall>i < length jobs. \<forall>p \<in> set (job_places ev total_n (launches i) (jobs ! i)).
          category p = fst (jobs ! i))"
proof -
  let ?rs = "job_results ev total_n launches jobs"
  from assms obtain results where ne: "jobs \<noteq> []"
    and ex: "executor_results ?rs = Inr results"
    and lr: "location_results = merge_results results []"
    by (auto simp: run_jobs_eq split: if_splits sum.splits)
  from executor_results_Inr[OF ex] have rs: "?rs = map Inr results" .
  have len: "length results = length jobs"
    using arg_cong[OF rs, of length] by (simp add: job_results_def)
  have nth: "results ! i = (snd (jobs ! i), job_places ev total_n (launches i) (jobs ! i))"
    if "i < length jobs" for i
  proof -
    have "snd (scrape_job ev total_n (launches i) (jobs ! i)) = Inr (results ! i)"
      using job_results_nth[OF that, of ev total_n launches] rs that len by simp
    then show ?thesis by (rule scrape_job_Inr_places)
  qed
  have results: "results = map (\<lambda>(i, job). (snd job, job_places ev total_n (launches i) job))
      (enumerate 0 jobs)"
    by (rule nth_equalityI) (simp_all add: len nth nth_enumerate_eq)
  have keys: "fst ` set results = snd ` set jobs"
  proof -
    have "map fst results = map snd jobs"
      by (rule nth_equalityI) (simp_all add: len nth)
    then have "set (map fst results) = set (map snd jobs)" by simp
    then show ?thesis by simp
  qed
  have k: "distinct (map fst location_results) \<and> fst ` set location_results = snd ` set jobs"
    unfolding lr using merge_results_keys[of "[]" results] keys by simp
  have m: "map_of location_results loc
          = Some (concat (map (\<lambda>(i, job). job_places ev total_n (launches i) job)
                    (filter (\<lambda>(i, job). snd job = loc) (enumerate 0 jobs))))"
    if "loc \<in> snd ` set jobs" for loc
  proof -
    have "concat (map snd (filter (\<lambda>r. fst r = loc) results))
        = concat (map (\<lambda>(i, job). job_places ev total_n (launches i) job)
                    (filter (\<lambda>(i, job). snd job = loc) (enumerate 0 jobs)))"
      unfolding results filter_map
      by (simp add: comp_def case_prod_unfold)
    then show ?thesis
      unfolding lr merge_results_map_of using that keys by simp
  qed
  have c: "\<forall>i < length jobs. \<forall>p \<in> set (job_places ev total_n (launches i) (jobs ! i)).
          category p = fst (jobs ! i)"
    by (simp add: job_places_category)
  from k have k1: "distinct (map fst location_results)"
    and k2: "fst ` set location_results = snd ` set jobs" by simp_all
  from m have m': "\<forall>loc \<in> snd ` set jobs. map_of location_results loc
          = Some (concat (map (\<lambda>(i, job). job_places ev total_n (launches i) job)
                    (filter (\<lambda>(i, job). snd job = loc) (enumerate 0 jobs))))"
    by (rule ballI)
  show ?thesis by (intro conjI k1 k2 m' c)
qed


theorem jobs_merged_by_location_witness:
  "map_sum id (map (\<lambda>(loc, ps). (loc, map (\<lambda>p. (name p, category p)) ps)))
       (run_jobs offline 1 (\<lambda>i. Got small_town) three_jobs)
     = Inr [(''loc1'', [(''Cafe Atlas'', ''A''), (''Cafe Atlas'', ''B'')]),
            (''loc2'', [(''Cafe Atlas'', ''A'')])]
   \<and> fst ` set (projr (run_jobs offline 1 (\<lambda>i. Got small_town) three_jobs)) = {''loc1'', ''loc2''}"
proof -
  have v: "map_sum id (map (\<lambda>(loc, ps). (loc, map (\<lambda>p. (name p, category p)) ps)))
       (run_jobs offline 1 (\<lambda>i. Got small_town) three_jobs)
     = Inr [(''loc1'', [(''Cafe Atlas'', ''A''), (''Cafe Atlas'', ''B'')]),
            (''loc2'', [(''Cafe Atlas'', ''A'')])]"
    by code_simp
  then have "run_jobs offline 1 (\<lambda>i. Got small_town) three_jobs
      = Inr (projr (run_jobs offline 1 (\<lambda>i. Got small_town) three_jobs))"
    by (cases "run_jobs offline 1 (\<lambda>i. Got small_town) three_jobs") simp_all
  from jobs_merged_by_location[OF this] v show ?thesis
    by (auto simp: three_jobs_def)
qed

text \<open>
  C4, as stated: a failure of one job is caught at the job boundary, the job contributes
  an empty list and its siblings still contribute their Records. It fails: with two jobs of
  which the first cannot launch its browser there is no merged result, only the exception.
\<close>

theorem job_isolation_counterexample:
  "run_jobs offline 1 (\<lambda>i. if i = 0 then Raised ''BrowserType.launch failed'' else Got small_town)
     [(''A'', ''loc1''), (''B'', ''loc2'')]
   = Inl ''BrowserType.launch failed''"
  by code_simp

text \<open>
  C4, amended: nothing catches a failure at the job boundary. There is a merged result
  exactly when there is a job and no job fails; otherwise the exception of the first failing
  job, in job order, leaves the collection of the results and no job contributes anything.
\<close>

theorem job_failure_propagates:
  "(isl (run_jobs ev total_n launches jobs) \<longleftrightarrow>
      jobs = [] \<or> (\<exists>i<length jobs. isl (snd (scrape_job ev total_n (launches i) (jobs ! i)))))
   \<and> (\<forall>i e. i < length jobs \<and> snd (scrape_job ev total_n (launches i) (jobs ! i)) = Inl e
          \<and> (\<forall>j<i. \<not> isl (snd (scrape_job ev total_n (launches j) (jobs ! j))))
        \<longrightarrow> run_jobs ev total_n launches jobs = Inl e)"
proof -
  let ?rs = "job_results ev total_n launches jobs"
  have len: "length ?rs = length jobs" by (simp add: job_results_def)
  have "(\<exists>r \<in> set ?rs. isl r) \<longleftrightarrow> (\<exists>i<length ?rs. isl (?rs ! i))"
    by (metis in_set_conv_nth)
  also have "\<dots> \<longleftrightarrow> (\<exists>i<length jobs. isl (snd (scrape_job ev total_n (launches i) (jobs ! i))))"
    unfolding len by (simp add: job_results_nth cong: conj_cong)
  finally have a: "isl (run_jobs ev total_n launches jobs) \<longleftrightarrow>
      jobs = [] \<or> (\<exists>i<length jobs. isl (snd (scrape_job ev total_n (launches i) (jobs ! i))))"
    using executor_results_isl[of ?rs]
    by (cases "executor_results ?rs") (auto simp: run_jobs_eq)
  have b: "run_jobs ev total_n launches jobs = Inl e"
    if i: "i < length jobs" and e: "snd (scrape_job ev total_n (launches i) (jobs ! i)) = Inl e"
      and f: "\<forall>j<i. \<not> isl (snd (scrape_job ev total_n (launches j) (jobs ! j)))" for i e
  proof -
    have "executor_results ?rs = Inl e"
    proof (rule executor_results_first[of i])
      show "i < length ?rs" using i len by simp
      show "?rs ! i = Inl e" using job_results_nth[OF i] e by simp
      show "\<forall>j<i. \<not> isl (?rs ! j)" using f i job_results_nth[of _ jobs ev total_n launches] by simp
    qed
    with i show ?thesis by (auto simp: run_jobs_eq)
  qed
  from a b show ?thesis by blast
qed

theorem job_failure_propagates_witness:
  "snd (scrape_job offline 1 (Raised ''BrowserType.launch failed'') (''A'', ''loc1''))
     = Inl ''BrowserType.launch failed''
   \<and> run_jobs offline 1 (\<lambda>i. if i = 0 then Raised ''BrowserType.launch failed'' else Got small_town)
       [(''A'', ''loc1''), (''B'', ''loc2'')] = Inl ''BrowserType.launch failed''
   \<and> \<not> isl (run_jobs offline 1 (\<lambda>i. Got small_town) [(''A'', ''loc1''), (''B'', ''loc2'')])"
proof -
  let ?l = "\<lambda>i::nat. if i = 0 then Raised ''BrowserType.launch failed'' else Got small_town"
  have e: "snd (scrape_job offline 1 (?l 0) ([(''A'', ''loc1''), (''B'', ''loc2'')] ! 0))
     = Inl ''BrowserType.launch failed''"
    by (simp add: scrape_job_def)
  have ok: "\<not> isl (run_jobs offline 1 (\<lambda>i. Got small_town) [(''A'', ''loc1''), (''B'', ''loc2'')])"
    by code_simp
  from job_failure_propagates[of offline 1 ?l "[(''A'', ''loc1''), (''B'', ''loc2'')]"] e
  have "run_jobs offline 1 ?l [(''A'', ''loc1''), (''B'', ''loc2'')] = Inl ''BrowserType.launch failed''"
    by (elim conjE allE[of _ 0] allE[of _ "''BrowserType.launch failed''"]) simp
  with e ok show ?thesis by simp
qed

end
